theory Spec2Isabelle
  imports Complex_Main "HOL-Library.Signed_Division"
begin

section \<open>Conventions of the embedding\<close>

text \<open>
  The planner computes with C++ \<open>double\<close>. The embedding uses exact real arithmetic for
  them: rounding, overflow and the special values (infinities, NaN) are not represented.
  Where the source converts a double to an integer, indexes a \<open>std::vector\<close> or takes
  \<open>back()\<close> of one, the undefined or throwing cases are branches of the model: a result
  is a value of \<open>error + 'a\<close>.
\<close>

datatype error =
    OutOfRange      \<comment> \<open>a read past the end of a vector, or \<open>back()\<close> of an empty one\<close>
  | BadConversion   \<comment> \<open>a double that does not fit the integer type it is converted to\<close>
  | NonFinite       \<comment> \<open>a quotient with divisor zero: the double is infinite or NaN, which
                        the real numbers of the embedding do not follow\<close>
  | Uninitialised   \<comment> \<open>use of a variable that was never assigned\<close>
  | NonTermination  \<comment> \<open>a loop of the callee never ends\<close>

definition rd :: "'a list \<Rightarrow> nat \<Rightarrow> error + 'a" where
  \<comment> \<open>\<open>v[i]\<close> and \<open>v.at(i)\<close>: defined inside the vector only\<close>
  "rd xs i = (if i < length xs then Inr (xs ! i) else Inl OutOfRange)"

definition vec_back :: "'a list \<Rightarrow> error + 'a" where
  \<comment> \<open>\<open>v.back()\<close>\<close>
  "vec_back xs = (if xs = [] then Inl OutOfRange else Inr (last xs))"

definition bindE :: "error + 'a \<Rightarrow> ('a \<Rightarrow> error + 'b) \<Rightarrow> error + 'b" where
  "bindE m f = (case m of Inl e \<Rightarrow> Inl e | Inr a \<Rightarrow> f a)"

definition rdi :: "'a list \<Rightarrow> int \<Rightarrow> error + 'a" where
  \<comment> \<open>\<open>v[i]\<close> with an \<open>int\<close> index: a negative index is past the end once converted\<close>
  "rdi xs i = (if 0 \<le> i \<and> i < int (length xs) then Inr (xs ! nat i) else Inl OutOfRange)"

definition fdiv :: "real \<Rightarrow> real \<Rightarrow> error + real" where
  \<comment> \<open>division of doubles; with divisor zero the result is not a real number\<close>
  "fdiv a b = (if b = 0 then Inl NonFinite else Inr (a / b))"

definition DBL_MAX :: real where
  \<comment> \<open>\<open>std::numeric_limits<double>::max()\<close>\<close>
  "DBL_MAX = (2 ^ 53 - 1) * 2 ^ 971"

definition isnormal :: "real \<Rightarrow> bool" where
  \<comment> \<open>\<open>std::isnormal\<close> on a finite value: neither zero nor subnormal\<close>
  "isnormal r = (1 / 2 ^ 1022 \<le> \<bar>r\<bar> \<and> \<bar>r\<bar> \<le> DBL_MAX)"

definition atan2 :: "real \<Rightarrow> real \<Rightarrow> real" where
  \<comment> \<open>the C library's \<open>atan2 (y, x)\<close>\<close>
  "atan2 y x =
     (if 0 < x then arctan (y / x)
      else if x < 0 then (if 0 \<le> y then arctan (y / x) + pi else arctan (y / x) - pi)
      else if 0 < y then pi / 2 else if y < 0 then - pi / 2 else 0)"

definition unifyAngleRange :: "real \<Rightarrow> real" where
  \<comment> \<open>Modelled from the spec: the helper of the absent math utilities; it maps any real
      into the interval from \<open>-pi\<close> (excluded) to \<open>pi\<close> (included).\<close>
  "unifyAngleRange a = a - 2 * pi * of_int \<lceil>(a - pi) / (2 * pi)\<rceil>"

definition size_t_of_int :: "int \<Rightarrow> nat" where
  \<comment> \<open>conversion of an \<open>int\<close> to the 64-bit \<open>size_t\<close>: a negative value wraps\<close>
  "size_t_of_int i = nat (i mod 2 ^ 64)"

definition size_t_minus_1 :: "nat \<Rightarrow> nat" where
  \<comment> \<open>\<open>v.size() - 1\<close> in \<open>size_t\<close>: wraps to \<open>2^64 - 1\<close> on an empty vector\<close>
  "size_t_minus_1 n = (if n = 0 then 2 ^ 64 - 1 else n - 1)"

definition double_to_int :: "real \<Rightarrow> error + int" where
  \<comment> \<open>initialising an \<open>int\<close> from a double truncates towards zero; out of range it is undefined\<close>
  "double_to_int r =
     (let q = (if 0 \<le> r then \<lfloor>r\<rfloor> else \<lceil>r\<rceil>)
      in if - (2 ^ 31) \<le> q \<and> q < 2 ^ 31 then Inr q else Inl BadConversion)"

section \<open>Configuration and messages\<close>

text \<open>
  The class \<open>Setting\<close> is declared in a header that is not part of the sources at hand; its
  fields are those the planner reads. The three grid sizes are the bounds of \<open>int\<close> loops.
\<close>

record Setting =
  max_speed :: real
  max_accel :: real
  max_decel :: real
  max_curvature :: real
  vehicle_length :: real
  vehicle_width :: real
  center_offset :: real
  num_width :: int
  num_speed :: int
  num_t :: int
  lowest_speed :: real
  highest_speed :: real
  min_t :: real
  max_t :: real
  tick_t :: real
  safety_margin_lon :: real
  safety_margin_lat :: real
  k_jerk :: real
  k_time :: real
  k_diff :: real
  k_lat :: real
  k_lon :: real

text \<open>A detected object of the perception message: pose, orientation quaternion, linear
  velocity and bounding box.\<close>

record DetectedObject =
  position_x :: real
  position_y :: real
  orientation :: "real \<times> real \<times> real \<times> real"
  linear_x :: real
  linear_y :: real
  linear_z :: real
  dimensions_x :: real
  dimensions_y :: real

record Path =
  path_x :: "real list"
  path_y :: "real list"
  path_yaw :: "real list"
  path_v :: "real list"

section \<open>Obstacle predictor\<close>

definition magnitude :: "real \<Rightarrow> real \<Rightarrow> real \<Rightarrow> real" where
  \<comment> \<open>Modelled from the spec: the helper \<open>magnitude\<close> of the absent math utilities,
      \<open>v = sqrt (vx\<^sup>2 + vy\<^sup>2 + vz\<^sup>2)\<close>.\<close>
  "magnitude a b c = sqrt (a * a + b * b + c * c)"

text \<open>The body of the propagation loop, run \<open>steps\<close> times. Both new coordinates are pushed
  onto \<open>x\<close>, as the source does.\<close>

fun predict_steps :: "nat \<Rightarrow> real \<Rightarrow> real \<Rightarrow> real \<Rightarrow> Path \<Rightarrow> Path" where
  "predict_steps 0 v tick yaw p = p"
| "predict_steps (Suc n) v tick yaw p =
     (let p1 = p\<lparr>path_x := path_x p @ [last (path_x p) + v * tick * cos yaw]\<rparr>;
          p2 = p1\<lparr>path_x := path_x p1 @ [last (path_y p1) + v * tick * sin yaw]\<rparr>;
          p3 = p2\<lparr>path_yaw := path_yaw p2 @ [yaw]\<rparr>;
          p4 = p3\<lparr>path_v := path_v p3 @ [v]\<rparr>
      in predict_steps n v tick yaw p4)"

text \<open>One obstacle. \<open>getYaw\<close> stands for the quaternion-to-yaw conversion of the
  transform library (normalise, rotation matrix, \<open>getRPY\<close>).\<close>

definition predictTrajectory ::
  "((real \<times> real \<times> real \<times> real) \<Rightarrow> real) \<Rightarrow> Setting \<Rightarrow> DetectedObject \<Rightarrow> error + Path" where
  "predictTrajectory getYaw settings obstacle =
     (let yaw = getYaw (orientation obstacle);
          v = magnitude (linear_x obstacle) (linear_y obstacle) (linear_z obstacle);
          p0 = \<lparr>path_x = [position_x obstacle], path_y = [position_y obstacle],
                path_yaw = [yaw], path_v = [v]\<rparr>
      in if tick_t settings = 0 then Inl BadConversion
         else bindE (double_to_int (max_t settings / tick_t settings))
                (\<lambda>steps. Inr (predict_steps (size_t_of_int steps) v (tick_t settings) yaw p0)))"

fun predictTrajectories ::
  "((real \<times> real \<times> real \<times> real) \<Rightarrow> real) \<Rightarrow> Setting \<Rightarrow> DetectedObject list \<Rightarrow> error + Path list" where
  "predictTrajectories getYaw settings [] = Inr []"
| "predictTrajectories getYaw settings (ob # obs) =
     bindE (predictTrajectory getYaw settings ob)
       (\<lambda>p. bindE (predictTrajectories getYaw settings obs) (\<lambda>ps. Inr (p # ps)))"

section \<open>Counting loops\<close>

text \<open>\<open>for (i = i0; i < n; i++) body\<close> where the body may fail: the loop stops at the
  first failure, which is then the result.\<close>

function for_loop :: "nat \<Rightarrow> nat \<Rightarrow> (nat \<Rightarrow> 'a \<Rightarrow> error + 'a) \<Rightarrow> 'a \<Rightarrow> error + 'a" where
  "for_loop i n body st =
     (if i < n
      then (case body i st of Inl e \<Rightarrow> Inl e | Inr st' \<Rightarrow> for_loop (Suc i) n body st')
      else Inr st)"
  by pat_completeness auto
termination
  by (relation "measure (\<lambda>(i, n, body, st). n - i)") auto

declare for_loop.simps [simp del]

section \<open>Cubic spline\<close>

text \<open>The members of the class end in an underscore in the source (\<open>x_\<close>, \<open>a_\<close>, ...);
  the fields carry the prefix \<open>spl_\<close> instead.\<close>

record Spline =
  spl_x :: "real list"
  spl_y :: "real list"
  spl_num_x :: nat
  spl_a :: "real list"
  spl_b :: "real list"
  spl_c :: "real list"
  spl_d :: "real list"

text \<open>The two matrices of the tridiagonal system. The source fills them only when there
  are five knots; otherwise the entries are whatever the allocation holds, which is
  \<open>None\<close> here. With five knots \<open>h\<close> has four entries, so \<open>h[0]\<close> to \<open>h[3]\<close> exist;
  \<open>a_\<close> is the caller's \<open>y\<close> and is read with a check.\<close>

definition calculateMatrixA :: "nat \<Rightarrow> real list \<Rightarrow> real list list option" where
  "calculateMatrixA n h =
     (if n = 5
      then Some [[1, 0, 0, 0, 0],
                 [h ! 0, 2 * (h ! 0 + h ! 1), h ! 1, 0, 0],
                 [0, h ! 1, 2 * (h ! 1 + h ! 2), h ! 2, 0],
                 [0, 0, h ! 2, 2 * (h ! 2 + h ! 3), h ! 3],
                 [0, 0, 0, 0, 1]]
      else None)"

definition calculateMatrixB :: "nat \<Rightarrow> real list \<Rightarrow> real list \<Rightarrow> error + real list option" where
  "calculateMatrixB n a h =
     (if n = 5
      then bindE (rd a 0) (\<lambda>a0. bindE (rd a 1) (\<lambda>a1. bindE (rd a 2) (\<lambda>a2.
           bindE (rd a 3) (\<lambda>a3. bindE (rd a 4) (\<lambda>a4.
           bindE (fdiv (3 * (a1 - a0)) (h ! 0)) (\<lambda>q0.
           bindE (fdiv (3 * (a2 - a1)) (h ! 1)) (\<lambda>q1.
           bindE (fdiv (3 * (a3 - a2)) (h ! 2)) (\<lambda>q2.
           bindE (fdiv (3 * (a4 - a3)) (h ! 3)) (\<lambda>q3.
             Inr (Some [0, q1 - q0, q2 - q1, q3 - q2, 0]))))))))))
      else Inr None)"

text \<open>The constructor. \<open>solve A B i\<close> stands for entry \<open>i\<close> of \<open>A.inverse() * B\<close>, computed
  by the linear-algebra library; the product has \<open>num_x_\<close> entries.\<close>

definition Spline_h :: "real list \<Rightarrow> error + real list" where
  "Spline_h x =
     for_loop 0 (size_t_minus_1 (length x))
       (\<lambda>i h. bindE (rd x (i + 1)) (\<lambda>x1. bindE (rd x i) (\<lambda>x0. Inr (h @ [x1 - x0])))) []"

definition Spline_bd :: "nat \<Rightarrow> real list \<Rightarrow> real list \<Rightarrow> real list \<Rightarrow> error + (real list \<times> real list)" where
  \<comment> \<open>the loop that fills \<open>d_\<close> and \<open>b_\<close>; the state is the pair \<open>(d, b)\<close>\<close>
  "Spline_bd n a c h =
     for_loop 0 (n - 1)
       (\<lambda>i (d, b).
          bindE (rd c (i + 1)) (\<lambda>c1. bindE (rd c i) (\<lambda>c0. bindE (rd h i) (\<lambda>hi.
          bindE (fdiv (c1 - c0) (3 * hi)) (\<lambda>dv.
          bindE (rd a (i + 1)) (\<lambda>a1. bindE (rd a i) (\<lambda>a0.
          bindE (fdiv (a1 - a0) hi) (\<lambda>q.
            Inr (d @ [dv], b @ [q - hi * (c1 + 2 * c0) / 3])))))))))
       ([], [])"

definition Spline_new ::
  "(real list list option \<Rightarrow> real list option \<Rightarrow> nat \<Rightarrow> real) \<Rightarrow> real list \<Rightarrow> real list \<Rightarrow> error + Spline" where
  "Spline_new solve x y =
     (let n = length x in
      bindE (Spline_h x) (\<lambda>h.
      bindE (calculateMatrixB n y h) (\<lambda>B.
        let A = calculateMatrixA n h;
            c = map (solve A B) [0..<n]
        in bindE (Spline_bd n y c h) (\<lambda>(d, b).
             Inr \<lparr>spl_x = x, spl_y = y, spl_num_x = n, spl_a = y, spl_b = b, spl_c = c, spl_d = d\<rparr>))))"

definition cmp_doubles_greater_or_equal :: "real \<Rightarrow> real \<Rightarrow> bool" where
  \<comment> \<open>Modelled from the spec: the comparison helper of the absent math utilities; the
      segment of \<open>t\<close> is the one with \<open>x_i \<le> t\<close>.\<close>
  "cmp_doubles_greater_or_equal a b = (b \<le> a)"

definition searchIndex :: "Spline \<Rightarrow> real \<Rightarrow> nat" where
  \<comment> \<open>the last index whose knot is not greater than \<open>x\<close>, or 0; every read is inside \<open>x_\<close>\<close>
  "searchIndex sp x =
     fold (\<lambda>i index. if cmp_doubles_greater_or_equal x (spl_x sp ! i) then i else index)
          [0..<length (spl_x sp)] 0"

definition calculatePoint :: "Spline \<Rightarrow> real \<Rightarrow> error + real" where
  "calculatePoint sp t =
     bindE (rd (spl_x sp) 0) (\<lambda>x0.
       if t < x0 then Inr 0
       else bindE (vec_back (spl_x sp)) (\<lambda>xn.
         if t > xn then Inr 0
         else (let i = searchIndex sp t in
               bindE (rd (spl_x sp) i) (\<lambda>xi.
               let dx = t - xi in
               bindE (rd (spl_a sp) i) (\<lambda>a. bindE (rd (spl_b sp) i) (\<lambda>b.
               bindE (rd (spl_c sp) i) (\<lambda>c. bindE (rd (spl_d sp) i) (\<lambda>d.
                 Inr (a + b * dx + c * dx * dx + d * dx * dx * dx)))))))))"

definition calculateFirstDerivative :: "Spline \<Rightarrow> real \<Rightarrow> error + real" where
  "calculateFirstDerivative sp t =
     bindE (rd (spl_x sp) 0) (\<lambda>x0.
       if t < x0 then Inr 0
       else bindE (vec_back (spl_x sp)) (\<lambda>xn.
         if t > xn then Inr 0
         else (let i = searchIndex sp t in
               bindE (rd (spl_x sp) i) (\<lambda>xi.
               let dx = t - xi in
               bindE (rd (spl_b sp) i) (\<lambda>b.
               bindE (rd (spl_c sp) i) (\<lambda>c. bindE (rd (spl_d sp) i) (\<lambda>d.
                 Inr (b + 2 * c * dx + 3 * d * dx * dx))))))))"

text \<open>The two-dimensional spline over the cumulative chord length of the waypoints.\<close>

record Map =
  map_x :: "real list"
  map_y :: "real list"

record Spline2D =
  spl2_s :: "real list"
  spl2_sx :: Spline
  spl2_sy :: Spline

definition calculate_s :: "Map \<Rightarrow> error + real list" where
  "calculate_s ref_wps =
     bindE (for_loop 0 (size_t_minus_1 (length (map_x ref_wps)))
              (\<lambda>i (dx, dy).
                 bindE (rd (map_x ref_wps) (i + 1)) (\<lambda>x1. bindE (rd (map_x ref_wps) i) (\<lambda>x0.
                 bindE (rd (map_y ref_wps) (i + 1)) (\<lambda>y1. bindE (rd (map_y ref_wps) i) (\<lambda>y0.
                   Inr (dx @ [x1 - x0], dy @ [y1 - y0]))))))
              ([], []))
       (\<lambda>(dx, dy).
          bindE (for_loop 0 (length dx)
                   (\<lambda>i ds. bindE (rd dx i) (\<lambda>a. bindE (rd dy i) (\<lambda>b. Inr (ds @ [sqrt (a * a + b * b)]))))
                   [])
            (\<lambda>ds. for_loop 0 (length ds)
                      (\<lambda>i s. bindE (rd s i) (\<lambda>si. bindE (rd ds i) (\<lambda>dsi. Inr (s @ [si + dsi]))))
                      [0]))"

definition Spline2D_new ::
  "(real list list option \<Rightarrow> real list option \<Rightarrow> nat \<Rightarrow> real) \<Rightarrow> Map \<Rightarrow> error + Spline2D" where
  "Spline2D_new solve ref_wps =
     bindE (calculate_s ref_wps) (\<lambda>s.
     bindE (Spline_new solve s (map_x ref_wps)) (\<lambda>sx.
     bindE (Spline_new solve s (map_y ref_wps)) (\<lambda>sy.
       Inr \<lparr>spl2_s = s, spl2_sx = sx, spl2_sy = sy\<rparr>)))"

definition calculatePosition :: "Spline2D \<Rightarrow> real \<Rightarrow> error + (real \<times> real)" where
  "calculatePosition sp s =
     bindE (calculatePoint (spl2_sx sp) s) (\<lambda>x.
     bindE (calculatePoint (spl2_sy sp) s) (\<lambda>y. Inr (x, y)))"

definition calculateYaw :: "Spline2D \<Rightarrow> real \<Rightarrow> error + real" where
  "calculateYaw sp s =
     bindE (calculateFirstDerivative (spl2_sx sp) s) (\<lambda>dx.
     bindE (calculateFirstDerivative (spl2_sy sp) s) (\<lambda>dy. Inr (atan2 dy dx)))"

section \<open>Frenet states and candidate trajectories\<close>

record FrenetState =
  st_T :: real
  st_s :: real
  st_s_d :: real
  st_s_dd :: real
  st_d :: real
  st_d_d :: real
  st_d_dd :: real

text \<open>The per-tick arrays \<open>t, s, s_d, ..., x, y, yaw, ds, c\<close> of the class carry the prefix
  \<open>traj_\<close>.\<close>

record FrenetPath =
  lane_id :: int
  end_state :: FrenetState
  fix_cost :: real
  hur_cost :: real
  dyn_cost :: real
  final_cost :: real
  is_generated :: bool
  is_used :: bool
  constraint_passed :: bool
  collision_passed :: bool
  traj_t :: "real list"
  traj_s :: "real list"
  traj_s_d :: "real list"
  traj_s_dd :: "real list"
  traj_s_ddd :: "real list"
  traj_d :: "real list"
  traj_d_d :: "real list"
  traj_d_dd :: "real list"
  traj_d_ddd :: "real list"
  traj_x :: "real list"
  traj_y :: "real list"
  traj_yaw :: "real list"
  traj_ds :: "real list"
  traj_c :: "real list"

definition FrenetPath_new :: "int \<Rightarrow> FrenetState \<Rightarrow> real \<Rightarrow> real \<Rightarrow> FrenetPath" where
  \<comment> \<open>Modelled from the spec: the constructor of the absent class declaration. A candidate is
      created in the sampling grid with only its end state and its fixed and heuristic cost:
      no samples, no flag set, the other costs zero.\<close>
  "FrenetPath_new lid es fc hc =
     \<lparr>lane_id = lid, end_state = es, fix_cost = fc, hur_cost = hc, dyn_cost = 0, final_cost = 0,
      is_generated = False, is_used = False, constraint_passed = False, collision_passed = False,
      traj_t = [], traj_s = [], traj_s_d = [], traj_s_dd = [], traj_s_ddd = [],
      traj_d = [], traj_d_d = [], traj_d_dd = [], traj_d_ddd = [],
      traj_x = [], traj_y = [], traj_yaw = [], traj_ds = [], traj_c = []\<rparr>"

section \<open>Candidate queue\<close>

text \<open>The member \<open>candidate_trajs_\<close> is declared in the absent header. The queue is a bag
  of candidates; \<open>top\<close> is a candidate of least \<open>final_cost\<close>.\<close>

definition queue_push :: "FrenetPath \<Rightarrow> FrenetPath list \<Rightarrow> FrenetPath list" where
  \<comment> \<open>Modelled from the spec: the candidate queue is a min-heap ordered by \<open>final_cost\<close>.\<close>
  "queue_push c q = c # q"

definition queue_top :: "FrenetPath list \<Rightarrow> FrenetPath" where
  \<comment> \<open>Modelled from the spec: the candidate queue is a min-heap ordered by \<open>final_cost\<close>.
      Called on a non-empty queue only.\<close>
  "queue_top q = arg_min_list final_cost q"

definition queue_pop :: "FrenetPath list \<Rightarrow> FrenetPath list" where
  \<comment> \<open>Modelled from the spec: the candidate queue is a min-heap ordered by \<open>final_cost\<close>.\<close>
  "queue_pop q = remove1 (queue_top q) q"

section \<open>Sampling engine\<close>

type_synonym index3 = "int \<times> int \<times> int"

type_synonym sampling = "real \<times> index3 option"

text \<open>The innermost loop body: one cell of the grid. The running minimum \<open>min_cost\<close> and
  the index \<open>idx\<close> are the state of all three loops; \<open>idx\<close> is \<open>None\<close> until its first
  assignment.\<close>

definition sample_cell ::
  "Setting \<Rightarrow> FrenetState \<Rightarrow> int \<Rightarrow> real \<Rightarrow> real \<Rightarrow> real \<Rightarrow> real \<Rightarrow> real \<Rightarrow> nat \<Rightarrow> nat \<Rightarrow> nat \<Rightarrow>
   FrenetPath list \<times> sampling \<Rightarrow> error + (FrenetPath list \<times> sampling)" where
  "sample_cell settings start lid d lat_cost v speed_cost delta_t i j k st =
     (case st of (trajs_1d, min_cost, idx) \<Rightarrow>
      let es = \<lparr>st_T = min_t settings + real k * delta_t, st_s = 0, st_s_d = v, st_s_dd = 0,
                st_d = d, st_d_d = 0, st_d_dd = 0\<rparr>
      in bindE (fdiv (st_T es) (max_t settings)) (\<lambda>q.
         let time_cost = 1 - q;
             fc = k_lat settings * k_diff settings * lat_cost
                  + k_lon settings * (k_time settings * time_cost + k_diff settings * speed_cost);
             hc = k_lat settings * k_diff settings * (st_d start - st_d es)\<^sup>2;
             est_cost = fc + hc;
             m = (if est_cost < min_cost then (est_cost, Some (int i, int j, int k))
                  else (min_cost, idx))
         in Inr (trajs_1d @ [FrenetPath_new lid es fc hc], m)))"

definition sample_speed ::
  "Setting \<Rightarrow> FrenetState \<Rightarrow> real \<Rightarrow> int \<Rightarrow> real \<Rightarrow> real \<Rightarrow> real \<Rightarrow> nat \<Rightarrow> nat \<Rightarrow>
   FrenetPath list list \<times> sampling \<Rightarrow> error + (FrenetPath list list \<times> sampling)" where
  "sample_speed settings start current_speed lid d lat_cost delta_v i j st =
     (case st of (trajs_2d, m) \<Rightarrow>
      let v = lowest_speed settings + real j * delta_v;
          speed_cost = (highest_speed settings - v)\<^sup>2 + 0.5 * (current_speed - v)\<^sup>2
      in bindE (fdiv (max_t settings - min_t settings) (real_of_int (num_t settings - 1))) (\<lambda>delta_t.
         bindE (for_loop 0 (nat (num_t settings))
                  (sample_cell settings start lid d lat_cost v speed_cost delta_t i j) ([], m))
           (\<lambda>(trajs_1d, m'). Inr (trajs_2d @ [trajs_1d], m'))))"

definition sample_width ::
  "Setting \<Rightarrow> FrenetState \<Rightarrow> real \<Rightarrow> int \<Rightarrow> real \<Rightarrow> real \<Rightarrow> real \<Rightarrow> nat \<Rightarrow>
   FrenetPath list list list \<times> sampling \<Rightarrow> error + (FrenetPath list list list \<times> sampling)" where
  "sample_width settings start current_speed lid left_bound right_bound delta_width i st =
     (case st of (trajs_3d, m) \<Rightarrow>
      let d = right_bound + real i * delta_width;
          lat_norm = max ((left_bound - center_offset settings)\<^sup>2)
                         ((right_bound - center_offset settings)\<^sup>2)
      in bindE (fdiv ((d - center_offset settings)\<^sup>2) lat_norm) (\<lambda>lat_cost.
         bindE (fdiv (highest_speed settings - lowest_speed settings)
                     (real_of_int (num_speed settings - 1))) (\<lambda>delta_v.
         bindE (for_loop 0 (nat (num_speed settings))
                  (sample_speed settings start current_speed lid d lat_cost delta_v i) ([], m))
           (\<lambda>(trajs_2d, m'). Inr (trajs_3d @ [trajs_2d], m')))))"

text \<open>\<open>(num_width - 1)/2\<close> is a division of \<open>int\<close>, which truncates towards zero.\<close>

definition sampleEndStates ::
  "Setting \<Rightarrow> FrenetState \<Rightarrow> int \<Rightarrow> real \<Rightarrow> real \<Rightarrow> real \<Rightarrow>
   error + (FrenetPath list list list \<times> index3 option)" where
  "sampleEndStates settings start lid left_bound right_bound current_speed =
     bindE (fdiv (left_bound - center_offset settings)
                 (real_of_int ((num_width settings - 1) sdiv 2))) (\<lambda>delta_width.
     bindE (for_loop 0 (nat (num_width settings))
              (sample_width settings start current_speed lid left_bound right_bound delta_width)
              ([], DBL_MAX, None))
       (\<lambda>(trajs_3d, min_cost, idx). Inr (trajs_3d, idx)))"

section \<open>Gradient-descent selector\<close>

text \<open>The state that the search changes: the grid, the counter of generated trajectories
  and the member \<open>candidate_trajs_\<close>.\<close>

record PlannerState =
  trajs :: "FrenetPath list list list"
  num_traj :: nat
  candidate_trajs :: "FrenetPath list"

definition vec3 :: "'a \<times> 'a \<times> 'a \<Rightarrow> nat \<Rightarrow> 'a" where
  \<comment> \<open>component \<open>v(dim)\<close> of a three-vector; the dimension is written \<open>dm\<close>\<close>
  "vec3 v dm = (case v of (a, b, c) \<Rightarrow> if dm = 0 then a else if dm = 1 then b else c)"

definition vec3_set :: "'a \<times> 'a \<times> 'a \<Rightarrow> nat \<Rightarrow> 'a \<Rightarrow> 'a \<times> 'a \<times> 'a" where
  "vec3_set v dm x =
     (case v of (a, b, c) \<Rightarrow> if dm = 0 then (x, b, c) else if dm = 1 then (a, x, c) else (a, b, x))"

definition grid_get :: "FrenetPath list list list \<Rightarrow> index3 \<Rightarrow> error + FrenetPath" where
  \<comment> \<open>\<open>trajs[i][j][k]\<close>\<close>
  "grid_get g idx =
     (case idx of (i, j, k) \<Rightarrow> bindE (rdi g i) (\<lambda>g2. bindE (rdi g2 j) (\<lambda>g1. rdi g1 k)))"

definition grid_set :: "FrenetPath list list list \<Rightarrow> index3 \<Rightarrow> FrenetPath \<Rightarrow> FrenetPath list list list" where
  \<comment> \<open>assignment to \<open>trajs[i][j][k]\<close>, used only where \<open>grid_get\<close> has succeeded\<close>
  "grid_set g idx c =
     (case idx of (i, j, k) \<Rightarrow>
        g[nat i := (g ! nat i)[nat j := (g ! nat i ! nat j)[nat k := c]]])"

text \<open>The sampling instants \<open>for (double t = 0.0; t <= T; t += tick_t)\<close>. With a tick that is
  not positive the loop never ends; then there is no list.\<close>

partial_function (option) sample_times :: "real \<Rightarrow> real \<Rightarrow> real \<Rightarrow> real list option" where
  "sample_times t T dt =
     (if t \<le> T then Option.bind (sample_times (t + dt) T dt) (\<lambda>ts. Some (t # ts)) else Some [])"

text \<open>The two sampling loops. \<open>p n t\<close> is the \<open>n\<close>-th derivative at \<open>t\<close> of the polynomial that
  the loop evaluates; the squared jerk is accumulated from the sample just pushed. Both loops
  run over the same instants.\<close>

fun lateral_samples :: "(nat \<Rightarrow> real \<Rightarrow> real) \<Rightarrow> real list \<Rightarrow> FrenetPath \<times> real \<Rightarrow> FrenetPath \<times> real" where
  "lateral_samples p [] (tr, jerk_d) = (tr, jerk_d)"
| "lateral_samples p (t # ts) (tr, jerk_d) =
     lateral_samples p ts
       (tr\<lparr>traj_t := traj_t tr @ [t],
           traj_d := traj_d tr @ [p 0 t],
           traj_d_d := traj_d_d tr @ [p 1 t],
           traj_d_dd := traj_d_dd tr @ [p 2 t],
           traj_d_ddd := traj_d_ddd tr @ [p 3 t]\<rparr>,
        jerk_d + (p 3 t)\<^sup>2)"

fun longitudinal_samples :: "(nat \<Rightarrow> real \<Rightarrow> real) \<Rightarrow> real list \<Rightarrow> FrenetPath \<times> real \<Rightarrow> FrenetPath \<times> real" where
  "longitudinal_samples p [] (tr, jerk_s) = (tr, jerk_s)"
| "longitudinal_samples p (t # ts) (tr, jerk_s) =
     longitudinal_samples p ts
       (tr\<lparr>traj_s := traj_s tr @ [p 0 t],
           traj_s_d := traj_s_d tr @ [p 1 t],
           traj_s_dd := traj_s_dd tr @ [p 2 t],
           traj_s_ddd := traj_s_ddd tr @ [p 3 t]\<rparr>,
        jerk_s + (p 3 t)\<^sup>2)"

text \<open>The classes of the two polynomials are not part of the sources at hand:
  \<open>quintic start end n t\<close> and \<open>quartic start end n t\<close> stand for the \<open>n\<close>-th derivative at \<open>t\<close>
  of the polynomial constructed from the two states.\<close>

type_synonym polynomial = "FrenetState \<Rightarrow> FrenetState \<Rightarrow> nat \<Rightarrow> real \<Rightarrow> real"

definition getTrajAndRealCost ::
  "polynomial \<Rightarrow> polynomial \<Rightarrow> Setting \<Rightarrow> FrenetState \<Rightarrow> PlannerState \<Rightarrow> index3 \<Rightarrow>
   error + (real \<times> PlannerState)" where
  "getTrajAndRealCost quintic quartic settings start ps idx =
     bindE (grid_get (trajs ps) idx) (\<lambda>cell.
       if is_generated cell then Inr (final_cost cell, ps)
       else
         (let cell1 = cell\<lparr>is_generated := True\<rparr>
          in case sample_times 0 (st_T (end_state cell1)) (tick_t settings) of
               None \<Rightarrow> Inl NonTermination
             | Some ts \<Rightarrow>
                 (let (cell2, jerk_d) =
                        lateral_samples (quintic start (end_state cell1)) ts (cell1, 0);
                      (cell3, jerk_s) =
                        longitudinal_samples (quartic start (end_state cell2)) ts (cell2, 0);
                      cell4 = cell3\<lparr>dyn_cost :=
                                k_jerk settings * (k_lon settings * jerk_s + k_lat settings * jerk_d)\<rparr>;
                      cell5 = cell4\<lparr>final_cost := fix_cost cell4 + dyn_cost cell4\<rparr>
                  in Inr (final_cost cell5,
                          ps\<lparr>trajs := grid_set (trajs ps) idx cell5,
                             num_traj := num_traj ps + 1,
                             candidate_trajs := queue_push cell5 (candidate_trajs ps)\<rparr>))))"

definition findDirection :: "index3 \<Rightarrow> index3 \<Rightarrow> index3" where
  "findDirection sizes idx =
     (let dir = (\<lambda>dm. if vec3 idx dm \<ge> vec3 sizes dm - 1 then - 1 else (1::int))
      in (dir 0, dir 1, dir 2))"

text \<open>One pass of the loop over the three dimensions in \<open>findGradients\<close>.\<close>

definition gradient_dim ::
  "polynomial \<Rightarrow> polynomial \<Rightarrow> Setting \<Rightarrow> FrenetState \<Rightarrow> index3 \<Rightarrow> index3 \<Rightarrow> index3 \<Rightarrow> real \<Rightarrow>
   nat \<Rightarrow> (real \<times> real \<times> real) \<times> PlannerState \<Rightarrow> error + ((real \<times> real \<times> real) \<times> PlannerState)" where
  "gradient_dim quintic quartic settings start sizes directions idx cost_center dm st =
     (case st of (gradients, ps) \<Rightarrow>
      let next_idx = vec3_set idx dm (vec3 idx dm + vec3 directions dm)
      in bindE (getTrajAndRealCost quintic quartic settings start ps next_idx) (\<lambda>(cost, ps').
           if vec3 directions dm \<ge> 0
           then (let g = cost - cost_center
                 in Inr (vec3_set gradients dm (if g \<ge> 0 \<and> vec3 idx dm = 0 then 0 else g), ps'))
           else (let g = cost_center - cost
                 in Inr (vec3_set gradients dm
                           (if g \<le> 0 \<and> vec3 idx dm = vec3 sizes dm - 1 then 0 else g), ps'))))"

definition findGradients ::
  "polynomial \<Rightarrow> polynomial \<Rightarrow> Setting \<Rightarrow> FrenetState \<Rightarrow> PlannerState \<Rightarrow> index3 \<Rightarrow>
   error + ((real \<times> real \<times> real) \<times> PlannerState)" where
  "findGradients quintic quartic settings start ps idx =
     bindE (rd (trajs ps) 0) (\<lambda>t0. bindE (rd t0 0) (\<lambda>t00.
       let sizes = (int (length (trajs ps)), int (length t0), int (length t00));
           directions = findDirection sizes idx
       in bindE (getTrajAndRealCost quintic quartic settings start ps idx) (\<lambda>(cost_center, ps1).
            for_loop 0 3
              (gradient_dim quintic quartic settings start sizes directions idx cost_center)
              ((0, 0, 0), ps1))))"

text \<open>The selection of the dimension of largest gradient, and the step. The step is taken
  whatever the value of \<open>max_grad\<close>.\<close>

definition max_gradient :: "real \<times> real \<times> real \<Rightarrow> nat \<times> real" where
  "max_gradient gradients =
     fold (\<lambda>i (grad_dim, max_grad).
             if \<bar>vec3 gradients i\<bar> > \<bar>max_grad\<bar> then (i, vec3 gradients i) else (grad_dim, max_grad))
          [1, 2] (0, vec3 gradients 0)"

definition findNextBest ::
  "polynomial \<Rightarrow> polynomial \<Rightarrow> Setting \<Rightarrow> FrenetState \<Rightarrow> PlannerState \<times> index3 \<Rightarrow>
   error + (bool \<times> PlannerState \<times> index3)" where
  "findNextBest quintic quartic settings start st =
     (case st of (ps, idx) \<Rightarrow>
      bindE (grid_get (trajs ps) idx) (\<lambda>cell.
        if is_used cell then Inr (True, ps, idx)
        else
          (let ps1 = ps\<lparr>trajs := grid_set (trajs ps) idx (cell\<lparr>is_used := True\<rparr>)\<rparr>
           in bindE (findGradients quintic quartic settings start ps1 idx) (\<lambda>(gradients, ps2).
                let (grad_dim, max_grad) = max_gradient gradients;
                    idx' = vec3_set idx grad_dim (vec3 idx grad_dim + (if max_grad > 0 then - 1 else 1))
                in Inr (False, ps2, idx')))))"

text \<open>The search loop of the planning call, \<open>while (!converged)\<close>. The result is \<open>None\<close> if
  the loop never ends.\<close>

partial_function (option) search ::
  "polynomial \<Rightarrow> polynomial \<Rightarrow> Setting \<Rightarrow> FrenetState \<Rightarrow> PlannerState \<times> index3 \<Rightarrow>
   (error + (PlannerState \<times> index3)) option" where
  "search quintic quartic settings start st =
     (case findNextBest quintic quartic settings start st of
        Inl e \<Rightarrow> Some (Inl e)
      | Inr (converged, ps, idx) \<Rightarrow>
          if converged then Some (Inr (ps, idx))
          else search quintic quartic settings start (ps, idx))"

section \<open>Conversion to the global frame\<close>

text \<open>The first loop, with its \<open>break\<close> at the first illegal point. \<open>isLegal\<close> is the
  finiteness test of the absent math utilities, applied to the double that the source has
  computed.\<close>

function convert_points :: "(real \<Rightarrow> bool) \<Rightarrow> Spline2D \<Rightarrow> FrenetPath \<Rightarrow> nat \<Rightarrow> error + FrenetPath" where
  "convert_points isLegal sp traj j =
     (if j < length (traj_s traj)
      then bindE (rd (traj_s traj) j) (\<lambda>sj.
           bindE (calculatePosition sp sj) (\<lambda>(state_x, state_y).
           bindE (calculateYaw sp sj) (\<lambda>i_yaw.
           bindE (rd (traj_d traj) j) (\<lambda>di.
             let frenet_x = state_x + di * cos (i_yaw + pi / 2);
                 frenet_y = state_y + di * sin (i_yaw + pi / 2)
             in if \<not> isLegal frenet_x \<or> \<not> isLegal frenet_y then Inr traj
                else convert_points isLegal sp
                       (traj\<lparr>traj_x := traj_x traj @ [frenet_x], traj_y := traj_y traj @ [frenet_y]\<rparr>)
                       (Suc j)))))
      else Inr traj)"
  by pat_completeness auto
termination
  by (relation "measure (\<lambda>(isLegal, sp, traj, j). length (traj_s traj) - j)") auto

declare convert_points.simps [simp del]

definition convert_yaw_ds :: "nat \<Rightarrow> FrenetPath \<Rightarrow> error + FrenetPath" where
  \<comment> \<open>body of the second loop\<close>
  "convert_yaw_ds j traj =
     bindE (rd (traj_x traj) (j + 1)) (\<lambda>x1. bindE (rd (traj_x traj) j) (\<lambda>x0.
     bindE (rd (traj_y traj) (j + 1)) (\<lambda>y1. bindE (rd (traj_y traj) j) (\<lambda>y0.
       let dx = x1 - x0; dy = y1 - y0
       in Inr (traj\<lparr>traj_yaw := traj_yaw traj @ [atan2 dy dx],
                    traj_ds := traj_ds traj @ [sqrt (dx * dx + dy * dy)]\<rparr>)))))"

definition convert_curvature :: "nat \<Rightarrow> FrenetPath \<Rightarrow> error + FrenetPath" where
  \<comment> \<open>body of the third loop\<close>
  "convert_curvature j traj =
     bindE (rd (traj_yaw traj) (j + 1)) (\<lambda>yaw1. bindE (rd (traj_yaw traj) j) (\<lambda>yaw0.
     bindE (rd (traj_ds traj) j) (\<lambda>dsj.
     bindE (fdiv (unifyAngleRange (yaw1 - yaw0)) dsj) (\<lambda>cj.
       Inr (traj\<lparr>traj_c := traj_c traj @ [cj]\<rparr>)))))"

definition convertToGlobalFrame :: "(real \<Rightarrow> bool) \<Rightarrow> FrenetPath \<Rightarrow> Spline2D \<Rightarrow> error + FrenetPath" where
  "convertToGlobalFrame isLegal traj cubic_spline =
     bindE (convert_points isLegal cubic_spline traj 0) (\<lambda>traj1.
     bindE (for_loop 0 (size_t_minus_1 (length (traj_x traj1))) convert_yaw_ds traj1) (\<lambda>traj2.
     bindE (vec_back (traj_yaw traj2)) (\<lambda>yaw_back.
       let traj3 = traj2\<lparr>traj_yaw := traj_yaw traj2 @ [yaw_back]\<rparr>
       in bindE (vec_back (traj_ds traj3)) (\<lambda>ds_back.
            let traj4 = traj3\<lparr>traj_ds := traj_ds traj3 @ [ds_back]\<rparr>
            in for_loop 0 (size_t_minus_1 (length (traj_yaw traj4))) convert_curvature traj4))))"

section \<open>Constraint checker\<close>

function constraints_from :: "Setting \<Rightarrow> FrenetPath \<Rightarrow> nat \<Rightarrow> error + bool" where
  "constraints_from settings traj i =
     (if i < length (traj_c traj)
      then bindE (rd (traj_x traj) i) (\<lambda>xi.
           if \<not> isnormal xi then Inr False
           else bindE (rd (traj_y traj) i) (\<lambda>yi.
           if \<not> isnormal yi then Inr False
           else bindE (rd (traj_s_d traj) i) (\<lambda>s_d.
           if s_d > max_speed settings then Inr False
           else bindE (rd (traj_s_dd traj) i) (\<lambda>s_dd.
           if s_dd > max_accel settings \<or> s_dd < max_decel settings then Inr False
           else bindE (rd (traj_c traj) i) (\<lambda>ci.
           if \<bar>ci\<bar> > max_curvature settings then Inr False
           else constraints_from settings traj (Suc i))))))
      else Inr True)"
  by pat_completeness auto
termination
  by (relation "measure (\<lambda>(settings, traj, i). length (traj_c traj) - i)") auto

declare constraints_from.simps [simp del]

definition checkConstraints :: "Setting \<Rightarrow> FrenetPath \<Rightarrow> error + (bool \<times> FrenetPath)" where
  "checkConstraints settings traj =
     bindE (constraints_from settings traj 0)
       (\<lambda>passed. Inr (passed, traj\<lparr>constraint_passed := passed\<rparr>))"

section \<open>Collision checker\<close>

text \<open>The polygon type and the two operations of the separating-axis checker, and the
  vehicle constant \<open>Lr\<close>, are not part of the sources at hand; they are parameters.\<close>

type_synonym 'p rectangle_maker = "real \<Rightarrow> real \<Rightarrow> real \<Rightarrow> real \<Rightarrow> real \<Rightarrow> real \<Rightarrow> real \<Rightarrow> 'p"

function collision_steps ::
  "real \<Rightarrow> 'p rectangle_maker \<Rightarrow> ('p \<Rightarrow> 'p \<Rightarrow> bool) \<Rightarrow> Setting \<Rightarrow> FrenetPath \<Rightarrow> Path list \<Rightarrow>
   DetectedObject list \<Rightarrow> real \<Rightarrow> real \<Rightarrow> nat \<Rightarrow> nat \<Rightarrow> nat \<Rightarrow> error + (bool \<times> nat)" where
  "collision_steps Lr construct_rectangle check_collision settings ego_traj obstacle_trajs objects
                   margin_lon margin_lat i j num_checks =
     (if j < length (traj_x ego_traj)
      then bindE (rd (traj_x ego_traj) j) (\<lambda>ex. bindE (rd (traj_yaw ego_traj) j) (\<lambda>eyaw.
           bindE (rd (traj_y ego_traj) j) (\<lambda>ey.
           let vehicle_center_x = ex + Lr * cos eyaw;
               vehicle_center_y = ey + Lr * sin eyaw;
               ego_rect = construct_rectangle vehicle_center_x vehicle_center_y eyaw
                            (vehicle_length settings) (vehicle_width settings) 0 0
           in bindE (rd obstacle_trajs i) (\<lambda>ot.
              bindE (rd (path_x ot) j) (\<lambda>ox. bindE (rd (path_y ot) j) (\<lambda>oy.
              bindE (rd (path_yaw ot) j) (\<lambda>oyaw. bindE (rd objects i) (\<lambda>ob.
              let obstacle_rect = construct_rectangle ox oy oyaw (dimensions_x ob) (dimensions_y ob)
                                    margin_lon margin_lat
              in if check_collision ego_rect obstacle_rect then Inr (False, Suc num_checks)
                 else collision_steps Lr construct_rectangle check_collision settings ego_traj
                        obstacle_trajs objects margin_lon margin_lat i (Suc j) (Suc num_checks)))))))))
      else Inr (True, num_checks))"
  by pat_completeness auto
termination
  by (relation "measure (\<lambda>(Lr, cr, cc, settings, ego_traj, ots, obs, mlon, mlat, i, j, n).
                           length (traj_x ego_traj) - j)") auto

declare collision_steps.simps [simp del]

function collision_obstacles ::
  "real \<Rightarrow> 'p rectangle_maker \<Rightarrow> ('p \<Rightarrow> 'p \<Rightarrow> bool) \<Rightarrow> Setting \<Rightarrow> FrenetPath \<Rightarrow> Path list \<Rightarrow>
   DetectedObject list \<Rightarrow> real \<Rightarrow> real \<Rightarrow> nat \<Rightarrow> nat \<Rightarrow> error + (bool \<times> nat)" where
  "collision_obstacles Lr construct_rectangle check_collision settings ego_traj obstacle_trajs objects
                       margin_lon margin_lat i num_checks =
     (if i < length objects
      then bindE (collision_steps Lr construct_rectangle check_collision settings ego_traj
                    obstacle_trajs objects margin_lon margin_lat i 0 num_checks)
             (\<lambda>(free, n). if \<not> free then Inr (False, n)
                           else collision_obstacles Lr construct_rectangle check_collision settings
                                  ego_traj obstacle_trajs objects margin_lon margin_lat (Suc i) n)
      else Inr (True, num_checks))"
  by pat_completeness auto
termination
  by (relation "measure (\<lambda>(Lr, cr, cc, settings, ego_traj, ots, obs, mlon, mlat, i, n).
                           length obs - i)") auto

declare collision_obstacles.simps [simp del]

definition checkTrajCollision ::
  "real \<Rightarrow> 'p rectangle_maker \<Rightarrow> ('p \<Rightarrow> 'p \<Rightarrow> bool) \<Rightarrow> Setting \<Rightarrow> FrenetPath \<Rightarrow> Path list \<Rightarrow>
   DetectedObject list \<Rightarrow> real \<Rightarrow> real \<Rightarrow> error + (bool \<times> nat)" where
  "checkTrajCollision Lr construct_rectangle check_collision settings ego_traj obstacle_trajs objects
                      margin_lon margin_lat =
     collision_obstacles Lr construct_rectangle check_collision settings ego_traj obstacle_trajs
       objects margin_lon margin_lat 0 0"

text \<open>Both branches of \<open>checkCollisions\<close> run the same check; the asynchronous one waits for
  its result at once.\<close>

definition checkCollisions ::
  "real \<Rightarrow> 'p rectangle_maker \<Rightarrow> ('p \<Rightarrow> 'p \<Rightarrow> bool) \<Rightarrow> Setting \<Rightarrow> FrenetPath \<Rightarrow> Path list \<Rightarrow>
   DetectedObject list \<Rightarrow> bool \<Rightarrow> nat \<Rightarrow> error + (bool \<times> FrenetPath \<times> nat)" where
  "checkCollisions Lr construct_rectangle check_collision settings ego_traj obstacle_trajs objects
                   use_async num_checks =
     bindE (checkTrajCollision Lr construct_rectangle check_collision settings ego_traj obstacle_trajs
              objects (safety_margin_lon settings) (safety_margin_lat settings))
       (\<lambda>(passed, n). Inr (passed, ego_traj\<lparr>collision_passed := passed\<rparr>, num_checks + n))"

section \<open>Planner\<close>

text \<open>What the planning call takes from outside the sources at hand.\<close>

record 'p Externals =
  getYaw :: "real \<times> real \<times> real \<times> real \<Rightarrow> real"
  quintic :: polynomial
  quartic :: polynomial
  isLegal :: "real \<Rightarrow> bool"
  Lr :: real
  construct_rectangle :: "'p rectangle_maker"
  check_collision :: "'p \<Rightarrow> 'p \<Rightarrow> bool"

text \<open>The validation loop. Its first component lists the candidates in the order in which
  they were taken from the queue (the source counts them in \<open>num_trajs_validated\<close>); the second
  is the outcome: the trajectory found, if any, and the number of collision checks.\<close>

function validation ::
  "'p Externals \<Rightarrow> Setting \<Rightarrow> Spline2D \<Rightarrow> Path list \<Rightarrow> DetectedObject list \<Rightarrow> bool \<Rightarrow> bool \<Rightarrow>
   FrenetPath list \<Rightarrow> nat \<Rightarrow> FrenetPath list \<times> (error + (FrenetPath option \<times> nat))" where
  "validation ext settings cubic_spline obstacle_trajs objects chk use_async q num_collision_checks =
     (if q = [] then ([], Inr (None, num_collision_checks))
      else
        (let candidate_traj = queue_top q; q' = queue_pop q
         in case convertToGlobalFrame (isLegal ext) candidate_traj cubic_spline of
              Inl e \<Rightarrow> ([candidate_traj], Inl e)
            | Inr traj1 \<Rightarrow>
               (case checkConstraints settings traj1 of
                  Inl e \<Rightarrow> ([candidate_traj], Inl e)
                | Inr (is_safe, traj2) \<Rightarrow>
                    if \<not> is_safe
                    then (case validation ext settings cubic_spline obstacle_trajs objects chk
                                 use_async q' num_collision_checks of
                            (popped, r) \<Rightarrow> (candidate_traj # popped, r))
                    else if chk
                    then (case checkCollisions (Lr ext) (construct_rectangle ext) (check_collision ext)
                                 settings traj2 obstacle_trajs objects use_async num_collision_checks of
                            Inl e \<Rightarrow> ([candidate_traj], Inl e)
                          | Inr (safe, traj3, n) \<Rightarrow>
                              if safe then ([candidate_traj], Inr (Some traj3, n))
                              else (case validation ext settings cubic_spline obstacle_trajs objects
                                           chk use_async q' n of
                                      (popped, r) \<Rightarrow> (candidate_traj # popped, r)))
                    else ([candidate_traj], Inr (Some traj2, num_collision_checks)))))"
  by pat_completeness auto
termination
proof (relation "measure (\<lambda>(ext, settings, sp, ots, obs, chk, ua, q, n). length q)")
  show "wf (measure (\<lambda>(ext, settings, sp, ots, obs, chk, ua, q, n). length q))"
    by simp
next
  fix q :: "FrenetPath list" and ext :: "'p Externals" and settings sp ots obs chk ua n candidate q'
  assume "q \<noteq> []" "candidate = queue_top q" "q' = queue_pop q"
  then have "length q' < length q"
    by (simp add: queue_pop_def queue_top_def length_remove1 arg_min_list_in)
  then show "((ext, settings, sp, ots, obs, chk, ua, q', n), (ext, settings, sp, ots, obs, chk, ua, q, n))
               \<in> measure (\<lambda>(ext, settings, sp, ots, obs, chk, ua, q, n). length q)"
    by simp
next
  fix q :: "FrenetPath list" and ext :: "'p Externals" and settings sp ots obs chk ua n candidate q' n'
  assume "q \<noteq> []" "candidate = queue_top q" "q' = queue_pop q"
  then have "length q' < length q"
    by (simp add: queue_pop_def queue_top_def length_remove1 arg_min_list_in)
  then show "((ext, settings, sp, ots, obs, chk, ua, q', n'), (ext, settings, sp, ots, obs, chk, ua, q, n))
               \<in> measure (\<lambda>(ext, settings, sp, ots, obs, chk, ua, q, n). length q)"
    by simp
qed

declare validation.simps [simp del]

text \<open>The planning call. The member \<open>candidate_trajs_\<close> is not emptied by the call: \<open>q0\<close> is
  its content on entry. The telemetry of the source is left out.\<close>

definition frenetOptimalPlanning ::
  "'p Externals \<Rightarrow> Setting \<Rightarrow> FrenetPath list \<Rightarrow> Spline2D \<Rightarrow> FrenetState \<Rightarrow> int \<Rightarrow> real \<Rightarrow> real \<Rightarrow> real \<Rightarrow>
   DetectedObject list \<Rightarrow> bool \<Rightarrow> bool \<Rightarrow> (error + FrenetPath list) option" where
  "frenetOptimalPlanning ext settings q0 cubic_spline start_state lid left_width right_width
                         current_speed objects chk use_async =
     (case predictTrajectories (getYaw ext) settings objects of
        Inl e \<Rightarrow> Some (Inl e)
      | Inr obstacle_trajs \<Rightarrow>
         (case sampleEndStates settings start_state lid left_width right_width current_speed of
            Inl e \<Rightarrow> Some (Inl e)
          | Inr (trajs_3d, best_idx) \<Rightarrow>
             (case bindE (rd trajs_3d 0) (\<lambda>t0. rd t0 0) of
                Inl e \<Rightarrow> Some (Inl e)
              | Inr t00 \<Rightarrow>
                 (case best_idx of
                    None \<Rightarrow> Some (Inl Uninitialised)
                  | Some idx \<Rightarrow>
                     (case search (quintic ext) (quartic ext) settings start_state
                             (\<lparr>trajs = trajs_3d, num_traj = 0, candidate_trajs = q0\<rparr>, idx) of
                        None \<Rightarrow> None
                      | Some (Inl e) \<Rightarrow> Some (Inl e)
                      | Some (Inr (ps, idx')) \<Rightarrow>
                         (case snd (validation ext settings cubic_spline obstacle_trajs objects chk
                                      use_async (candidate_trajs ps) 0) of
                            Inl e \<Rightarrow> Some (Inl e)
                          | Inr (best_traj, n) \<Rightarrow>
                              Some (Inr (case best_traj of None \<Rightarrow> [] | Some b \<Rightarrow> [b]))))))))"

section \<open>Scenarios\<close>

text \<open>The configuration of the straight-road scenario: three samples on each axis, end
  speeds from 4 to 6, horizons from 2 to 4, and a tick of one second.\<close>

definition s1_settings :: Setting where
  "s1_settings =
     \<lparr>max_speed = 10, max_accel = 3, max_decel = - 3, max_curvature = 1,
      vehicle_length = 4, vehicle_width = 2, center_offset = 0,
      num_width = 3, num_speed = 3, num_t = 3,
      lowest_speed = 4, highest_speed = 6, min_t = 2, max_t = 4, tick_t = 1,
      safety_margin_lon = 1, safety_margin_lat = 1 / 2,
      k_jerk = 1, k_time = 1, k_diff = 1, k_lat = 1, k_lon = 1\<rparr>"

text \<open>The static obstacle of the second scenario, at \<open>(15, 0)\<close>.\<close>

definition s2_obstacle :: DetectedObject where
  "s2_obstacle =
     \<lparr>position_x = 15, position_y = 0, orientation = (0, 0, 0, 1),
      linear_x = 0, linear_y = 0, linear_z = 0, dimensions_x = 4, dimensions_y = 2\<rparr>"

text \<open>An ego trajectory of two Cartesian samples on the straight road.\<close>

definition ego_two_ticks :: FrenetPath where
  "ego_two_ticks =
     (FrenetPath_new 0
        \<lparr>st_T = 2, st_s = 0, st_s_d = 5, st_s_dd = 0, st_d = 0, st_d_d = 0, st_d_dd = 0\<rparr> 0 0)
       \<lparr>traj_x := [0, 5], traj_y := [0, 0], traj_yaw := [0, 0]\<rparr>"

text \<open>An ego trajectory of two ticks off the origin, one metre left of the centre line, at
  a constant speed of 5.\<close>

definition ego_off_origin :: FrenetPath where
  "ego_off_origin =
     (FrenetPath_new 0
        \<lparr>st_T = 1, st_s = 6, st_s_d = 5, st_s_dd = 0, st_d = 1, st_d_d = 0, st_d_dd = 0\<rparr> 0 0)
       \<lparr>is_generated := True, traj_t := [0, 1], traj_s := [1, 6], traj_s_d := [5, 5],
        traj_s_dd := [0, 0], traj_s_ddd := [0, 0], traj_d := [1, 1], traj_d_d := [0, 0],
        traj_d_dd := [0, 0], traj_d_ddd := [0, 0],
        traj_x := [1, 6], traj_y := [1, 1], traj_yaw := [0, 0], traj_ds := [5], traj_c := [0]\<rparr>"

text \<open>The straight road of the scenarios: five waypoints \<open>(0,0), (10,0), ..., (40,0)\<close>. The
  chord lengths are the knots; the spline of the \<open>x\<close> coordinate has the knots as values. For
  collinear data the second-derivative coefficients of the natural spline are zero.\<close>

definition s1_knots :: "real list" where
  "s1_knots = [0, 10, 20, 30, 40]"

definition s1_sx :: Spline where
  "s1_sx = \<lparr>spl_x = s1_knots, spl_y = s1_knots, spl_num_x = 5, spl_a = s1_knots,
            spl_b = [1, 1, 1, 1], spl_c = [0, 0, 0, 0, 0], spl_d = [0, 0, 0, 0]\<rparr>"

text \<open>The spline of the \<open>y\<close> coordinate of the straight road, and the road itself.\<close>

definition s1_sy :: Spline where
  "s1_sy = \<lparr>spl_x = s1_knots, spl_y = [0, 0, 0, 0, 0], spl_num_x = 5, spl_a = [0, 0, 0, 0, 0],
            spl_b = [0, 0, 0, 0], spl_c = [0, 0, 0, 0, 0], spl_d = [0, 0, 0, 0]\<rparr>"

definition s1_spline :: Spline2D where
  "s1_spline = \<lparr>spl2_s = s1_knots, spl2_sx = s1_sx, spl2_sy = s1_sy\<rparr>"

text \<open>A generated candidate with a horizon of zero: a single sample, at the start of the
  road.\<close>

definition one_tick :: FrenetPath where
  "one_tick =
     (FrenetPath_new 0
        \<lparr>st_T = 0, st_s = 0, st_s_d = 5, st_s_dd = 0, st_d = 0, st_d_d = 0, st_d_dd = 0\<rparr> 0 0)
       \<lparr>is_generated := True, traj_t := [0], traj_s := [0], traj_s_d := [5], traj_s_dd := [0],
        traj_s_ddd := [0], traj_d := [0], traj_d_d := [0], traj_d_dd := [0], traj_d_ddd := [0]\<rparr>"

text \<open>A converted candidate of two ticks, one unit beside the road, whose speed at the
  second tick is twice the speed limit of the configuration. Its curvature array has one
  entry, as the conversion leaves it.\<close>

definition last_tick_too_fast :: FrenetPath where
  "last_tick_too_fast =
     (FrenetPath_new 0
        \<lparr>st_T = 1, st_s = 0, st_s_d = 20, st_s_dd = 0, st_d = 1, st_d_d = 0, st_d_dd = 0\<rparr> 0 0)
       \<lparr>is_generated := True, traj_t := [0, 1], traj_s := [1, 6], traj_s_d := [5, 20],
        traj_s_dd := [0, 0], traj_s_ddd := [0, 0], traj_d := [1, 1], traj_d_d := [0, 0],
        traj_d_dd := [0, 0], traj_d_ddd := [0, 0],
        traj_x := [1, 6], traj_y := [1, 1], traj_yaw := [0, 0], traj_ds := [5, 5], traj_c := [0]\<rparr>"

text \<open>Two stand-ins for the polynomials: the lateral profile that stays on the centre
  line, and the longitudinal profile \<open>s(t) = t\<^sup>3\<close>, whose jerk is 6 throughout.\<close>

definition zero_profile :: polynomial where
  "zero_profile start end n t = 0"

definition cubic_profile :: polynomial where
  "cubic_profile start end n t =
     (if n = 0 then t ^ 3 else if n = 1 then 3 * t\<^sup>2 else if n = 2 then 6 * t else 6)"

text \<open>The start state of the straight-road scenario, a grid cell with a horizon of 2 and a
  fixed cost of 1, and a planner state whose grid is that single cell.\<close>

definition s1_start :: FrenetState where
  "s1_start = \<lparr>st_T = 0, st_s = 0, st_s_d = 5, st_s_dd = 0, st_d = 0, st_d_d = 0, st_d_dd = 0\<rparr>"

definition seed_cell :: FrenetPath where
  "seed_cell =
     FrenetPath_new 0
       \<lparr>st_T = 2, st_s = 0, st_s_d = 4, st_s_dd = 0, st_d = 0, st_d_d = 0, st_d_dd = 0\<rparr> 1 0"

definition seed_state :: PlannerState where
  "seed_state = \<lparr>trajs = [[[seed_cell]]], num_traj = 0, candidate_trajs = []\<rparr>"

text \<open>The configuration of the straight-road scenario with the jerk weight and the lateral
  weight set to zero: the real cost of a cell is then its fixed cost, whatever the
  polynomials are, and does not depend on the lateral index.\<close>

definition flat_settings :: Setting where
  "flat_settings = s1_settings\<lparr>k_jerk := 0, k_lat := 0\<rparr>"

text \<open>A grid of two cells on each axis in which the fixed cost decreases towards the cell
  \<open>(1, 1, 1)\<close>, which has the least cost.\<close>

definition corner_cell :: "real \<Rightarrow> FrenetPath" where
  "corner_cell fc =
     FrenetPath_new 0
       \<lparr>st_T = 2, st_s = 0, st_s_d = 4, st_s_dd = 0, st_d = 0, st_d_d = 0, st_d_dd = 0\<rparr> fc 0"

definition corner_state :: PlannerState where
  "corner_state =
     \<lparr>trajs = [[[corner_cell 3, corner_cell 2], [corner_cell 2, corner_cell 1]],
               [[corner_cell 2, corner_cell 1], [corner_cell 1, corner_cell 0]]],
      num_traj = 0, candidate_trajs = []\<rparr>"

text \<open>The configuration of the straight-road scenario with the longitudinal weight at the
  largest double and the difference weight 2: every cell of the grid then has an estimated
  cost of at least the largest double.\<close>

definition huge_settings :: Setting where
  "huge_settings = s1_settings\<lparr>k_lon := DBL_MAX, k_diff := 2\<rparr>"

section \<open>Notions used to state the scan of the sampling engine\<close>

text \<open>The estimated cost of a cell; the cells of a row, of a plane and of a grid together with
  their indices; and what the running minimum and the index satisfy once a set of cells has
  been visited.\<close>

definition est_cost :: "FrenetPath \<Rightarrow> real" where
  "est_cost c = fix_cost c + hur_cost c"

definition scan_inv :: "(index3 \<times> FrenetPath) set \<Rightarrow> sampling \<Rightarrow> bool" where
  "scan_inv V m =
     ((\<forall>q c. (q, c) \<in> V \<longrightarrow> fst m \<le> est_cost c)
      \<and> (case snd m of
             None \<Rightarrow> fst m = DBL_MAX
           | Some p \<Rightarrow> fst m < DBL_MAX \<and> (\<exists>c. (p, c) \<in> V \<and> fst m = est_cost c)))"

definition cells1 :: "int \<Rightarrow> int \<Rightarrow> FrenetPath list \<Rightarrow> (index3 \<times> FrenetPath) set" where
  "cells1 i j t1 = (\<lambda>k. ((i, j, int k), t1 ! k)) ` {..<length t1}"

definition cells2 :: "int \<Rightarrow> FrenetPath list list \<Rightarrow> (index3 \<times> FrenetPath) set" where
  "cells2 i t2 = (\<Union>j<length t2. cells1 i (int j) (t2 ! j))"

definition cells3 :: "FrenetPath list list list \<Rightarrow> (index3 \<times> FrenetPath) set" where
  "cells3 t3 = (\<Union>i<length t3. cells2 (int i) (t3 ! i))"

section \<open>Basic facts\<close>

lemma bindE_Inr_iff: "bindE m f = Inr r \<longleftrightarrow> (\<exists>a. m = Inr a \<and> f a = Inr r)"
  by (cases m) (simp_all add: bindE_def)

lemma bindE_Inr [simp]: "bindE (Inr a) f = f a"
  by (simp add: bindE_def)

lemma bindE_Inl [simp]: "bindE (Inl e) f = Inl e"
  by (simp add: bindE_def)

lemma bindE_InrE:
  assumes "bindE m f = Inr r"
  obtains a where "m = Inr a" and "f a = Inr r"
  using assms by (cases m) (simp_all add: bindE_def)

lemma rd_Inr_iff: "rd xs i = Inr a \<longleftrightarrow> i < length xs \<and> a = xs ! i"
  by (auto simp: rd_def)

lemma for_loop_rule:
  assumes "for_loop i n body st = Inr st'" and "P i st" and "i \<le> n"
    and step: "\<And>k s s'. i \<le> k \<Longrightarrow> k < n \<Longrightarrow> P k s \<Longrightarrow> body k s = Inr s' \<Longrightarrow> P (Suc k) s'"
  shows "P n st'"
  using assms
proof (induction i n body st rule: for_loop.induct)
  case (1 i n body st)
  show ?case
  proof (cases "i < n")
    case True
    from "1.prems"(1) True obtain s1 where b: "body i st = Inr s1"
      and r: "for_loop (Suc i) n body s1 = Inr st'"
      by (subst (asm) for_loop.simps) (auto split: sum.splits)
    have p1: "P (Suc i) s1" using "1.prems"(4)[OF le_refl True "1.prems"(2) b] .
    show ?thesis
    proof (rule "1.IH"[OF True b r p1])
      show "Suc i \<le> n" using True by simp
    next
      fix k s s' assume "Suc i \<le> k" "k < n" "P k s" "body k s = Inr s'"
      then show "P (Suc k) s'" using "1.prems"(4)[of k s s'] by simp
    qed
  next
    case False
    with "1.prems" have "i = n" by simp
    with "1.prems"(1,2) show ?thesis by (subst (asm) for_loop.simps) simp
  qed
qed

lemma for_loop_total:
  assumes "P i st" and "i \<le> n"
    and step: "\<And>k s. i \<le> k \<Longrightarrow> k < n \<Longrightarrow> P k s \<Longrightarrow> \<exists>s'. body k s = Inr s' \<and> P (Suc k) s'"
  shows "\<exists>st'. for_loop i n body st = Inr st' \<and> P n st'"
  using assms
proof (induction i n body st rule: for_loop.induct)
  case (1 i n body st)
  show ?case
  proof (cases "i < n")
    case True
    from "1.prems"(3)[OF le_refl True "1.prems"(1)] obtain s1 where b: "body i st = Inr s1"
      and p1: "P (Suc i) s1" by blast
    have "\<exists>st'. for_loop (Suc i) n body s1 = Inr st' \<and> P n st'"
    proof (rule "1.IH"[OF True b p1])
      show "Suc i \<le> n" using True by simp
    next
      fix k s assume "Suc i \<le> k" "k < n" "P k s"
      then show "\<exists>s'. body k s = Inr s' \<and> P (Suc k) s'" using "1.prems"(3)[of k s] by simp
    qed
    then show ?thesis using True b by (subst for_loop.simps) simp
  next
    case False
    with "1.prems" have "i = n" by simp
    with "1.prems"(1) show ?thesis by (subst for_loop.simps) simp
  qed
qed

lemma upt5: "[0..<5] = [0, 1, 2, 3, 4]"
  by (simp add: eval_nat_numeral upt_rec)

lemma s1_fields:
  "max_speed s1_settings = 10" "max_accel s1_settings = 3" "max_decel s1_settings = - 3"
  "max_curvature s1_settings = 1" "vehicle_length s1_settings = 4" "vehicle_width s1_settings = 2"
  "center_offset s1_settings = 0" "num_width s1_settings = 3" "num_speed s1_settings = 3"
  "num_t s1_settings = 3" "lowest_speed s1_settings = 4" "highest_speed s1_settings = 6"
  "min_t s1_settings = 2" "max_t s1_settings = 4" "tick_t s1_settings = 1"
  "safety_margin_lon s1_settings = 1" "safety_margin_lat s1_settings = 1 / 2"
  "k_jerk s1_settings = 1" "k_time s1_settings = 1" "k_diff s1_settings = 1"
  "k_lat s1_settings = 1" "k_lon s1_settings = 1"
  by (simp_all add: s1_settings_def)

lemma flat_fields:
  "max_speed flat_settings = 10" "max_accel flat_settings = 3" "max_decel flat_settings = - 3"
  "max_curvature flat_settings = 1" "vehicle_length flat_settings = 4" "vehicle_width flat_settings = 2"
  "center_offset flat_settings = 0" "num_width flat_settings = 3" "num_speed flat_settings = 3"
  "num_t flat_settings = 3" "lowest_speed flat_settings = 4" "highest_speed flat_settings = 6"
  "min_t flat_settings = 2" "max_t flat_settings = 4" "tick_t flat_settings = 1"
  "safety_margin_lon flat_settings = 1" "safety_margin_lat flat_settings = 1 / 2"
  "k_jerk flat_settings = 0" "k_time flat_settings = 1" "k_diff flat_settings = 1"
  "k_lat flat_settings = 0" "k_lon flat_settings = 1"
  by (simp_all add: flat_settings_def s1_fields)

lemma huge_fields:
  "center_offset huge_settings = 0" "num_width huge_settings = 3" "num_speed huge_settings = 3"
  "num_t huge_settings = 3" "lowest_speed huge_settings = 4" "highest_speed huge_settings = 6"
  "min_t huge_settings = 2" "max_t huge_settings = 4"
  "k_time huge_settings = 1" "k_diff huge_settings = 2"
  "k_lat huge_settings = 1" "k_lon huge_settings = DBL_MAX"
  by (simp_all add: huge_settings_def s1_fields)

lemma sample_times_0_2_1: "sample_times 0 2 1 = Some [0, 1, 2]"
  by (simp add: sample_times.simps)

lemma sample_times_small:
  "sample_times 0 2 1 = Some [0, 1, 2]" "sample_times 0 3 1 = Some [0, 1, 2, 3]"
  "sample_times 0 4 1 = Some [0, 1, 2, 3, 4]"
  by (simp_all add: sample_times.simps)

section \<open>Properties of the obstacle predictor\<close>

lemma predict_steps_lengths:
  "length (path_x (predict_steps n v tick yaw p)) = length (path_x p) + 2 * n \<and>
   length (path_y (predict_steps n v tick yaw p)) = length (path_y p) \<and>
   length (path_yaw (predict_steps n v tick yaw p)) = length (path_yaw p) + n \<and>
   length (path_v (predict_steps n v tick yaw p)) = length (path_v p) + n"
  by (induction n arbitrary: p) (simp_all add: Let_def)

lemma predicted_s2:
  "predictTrajectories gy s1_settings [s2_obstacle] =
     Inr [\<lparr>path_x = [15, 15, 0, 0, 0, 0, 0, 0, 0], path_y = [0],
           path_yaw = replicate 5 (gy (0, 0, 0, 1)), path_v = [0, 0, 0, 0, 0]\<rparr>]"
  by (simp add: predictTrajectory_def s1_settings_def s2_obstacle_def bindE_def double_to_int_def
      size_t_of_int_def magnitude_def Let_def eval_nat_numeral)

text \<open>
  Claim C2. For the static obstacle at \<open>(15, 0)\<close> with a horizon of 4 and a tick of 1 the
  claim asks for five samples with \<open>x = 15\<close> and \<open>y = 0\<close> throughout, and four arrays of
  length five. The predictor pushes the new \<open>y\<close> onto \<open>x\<close>: \<open>x\<close> gets nine entries that mix
  both coordinates, \<open>y\<close> keeps its single initial entry, and only \<open>yaw\<close> and \<open>v\<close> have five.
\<close>

theorem predictTrajectories_pushes_y_onto_x:
  "predictTrajectories gy s1_settings [s2_obstacle] =
     Inr [\<lparr>path_x = [15, 15, 0, 0, 0, 0, 0, 0, 0], path_y = [0],
           path_yaw = [gy (0, 0, 0, 1), gy (0, 0, 0, 1), gy (0, 0, 0, 1), gy (0, 0, 0, 1),
                       gy (0, 0, 0, 1)],
           path_v = [0, 0, 0, 0, 0]\<rparr>]"
  unfolding predicted_s2 by (simp add: eval_nat_numeral)

section \<open>Properties of the collision checker\<close>

text \<open>
  Claim C5. The claim asks that every read of the collision check into the predicted
  obstacle trajectories is inside the arrays. With the obstacle trajectory that the predictor
  produces for the static obstacle, and an ego trajectory of two samples, the check at the
  second tick reads \<open>y[1]\<close> of an array of length one: unless the two rectangles already
  collide at the first tick, the read is out of range.
\<close>

theorem checkTrajCollision_reads_past_y:
  "bindE (predictTrajectories gy s1_settings [s2_obstacle])
     (\<lambda>obstacle_trajs. checkTrajCollision lr cr cc s1_settings ego_two_ticks obstacle_trajs
                          [s2_obstacle] 1 (1 / 2)) =
   (if cc (cr lr 0 0 4 2 0 0) (cr 15 0 (gy (0, 0, 0, 1)) 4 2 1 (1 / 2))
    then Inr (False, 1) else Inl OutOfRange)"
  unfolding predicted_s2
  by (simp add: bindE_def checkTrajCollision_def collision_obstacles.simps collision_steps.simps
      rd_def ego_two_ticks_def FrenetPath_new_def s1_settings_def s2_obstacle_def Let_def
      eval_nat_numeral)

text \<open>
  The same happens to a trajectory that has gone through the constraint checker, as every
  trajectory has that the planner hands to the collision check: the trajectory off the origin
  passes the constraints, and the collision check then reads \<open>y[1]\<close> of the obstacle
  trajectory.
\<close>

lemma collision_check_after_constraints:
  "checkConstraints s1_settings ego_off_origin
     = Inr (True, ego_off_origin\<lparr>constraint_passed := True\<rparr>)
   \<and> bindE (predictTrajectories gy s1_settings [s2_obstacle])
       (\<lambda>obstacle_trajs. checkTrajCollision lr cr cc s1_settings
                            (ego_off_origin\<lparr>constraint_passed := True\<rparr>) obstacle_trajs
                            [s2_obstacle] 1 (1 / 2)) =
     (if cc (cr (1 + lr) 1 0 4 2 0 0) (cr 15 0 (gy (0, 0, 0, 1)) 4 2 1 (1 / 2))
      then Inr (False, 1) else Inl OutOfRange)"
  unfolding predicted_s2
  by (simp add: checkConstraints_def constraints_from.simps isnormal_def DBL_MAX_def
      bindE_def checkTrajCollision_def collision_obstacles.simps collision_steps.simps
      rd_def ego_off_origin_def FrenetPath_new_def s1_settings_def s2_obstacle_def Let_def
      eval_nat_numeral)

section \<open>Properties of the spline\<close>

lemma Spline_h_length:
  assumes "Spline_h x = Inr h" shows "x \<noteq> [] \<and> length h = length x - 1"
proof -
  have ne: "x \<noteq> []"
  proof
    assume "x = []"
    with assms show False
      by (simp add: Spline_h_def size_t_minus_1_def for_loop.simps rd_def)
  qed
  let ?body = "\<lambda>i h. bindE (rd x (i + 1)) (\<lambda>x1. bindE (rd x i) (\<lambda>x0. Inr (h @ [x1 - x0])))"
  have loop: "for_loop 0 (length x - 1) ?body [] = Inr h"
    using assms ne by (simp add: Spline_h_def size_t_minus_1_def)
  have "length h = length x - 1"
    by (rule for_loop_rule[OF loop, where P = "\<lambda>k h. length h = k"])
       (auto simp: bindE_Inr_iff)
  with ne show ?thesis by simp
qed

lemma Spline_bd_length:
  assumes "Spline_bd n a c h = Inr (d, b)" shows "length d = n - 1 \<and> length b = n - 1"
proof -
  have "(\<lambda>k (d, b). length d = k \<and> length b = k) (n - 1) (d, b)"
    by (rule for_loop_rule[OF assms[unfolded Spline_bd_def]])
       (auto simp: bindE_Inr_iff)
  then show ?thesis by simp
qed

lemma Spline_new_fields:
  assumes "Spline_new solve x y = Inr sp"
  shows "x \<noteq> [] \<and> spl_x sp = x \<and> spl_a sp = y \<and> length (spl_b sp) = length x - 1
         \<and> length (spl_d sp) = length x - 1 \<and> length (spl_c sp) = length x"
  using assms
  by (auto simp: Spline_new_def Let_def bindE_Inr_iff dest!: Spline_h_length Spline_bd_length)

lemma fold_last_index:
  "fold (\<lambda>i index. if P i then i else index) [0..<n] (0::nat) = r \<Longrightarrow>
   (r < n \<or> r = 0) \<and> (P r \<or> r = 0) \<and> (\<forall>m. r < m \<and> m < n \<longrightarrow> \<not> P m)"
proof (induction n arbitrary: r)
  case 0
  then show ?case by simp
next
  case (Suc n)
  let ?r = "fold (\<lambda>i index. if P i then i else index) [0..<n] (0::nat)"
  note ih = Suc.IH[OF refl]
  show ?case
  proof (cases "P n")
    case True
    with Suc.prems have "r = n" by simp
    with True show ?thesis by auto
  next
    case False
    with Suc.prems have "r = ?r" by simp
    with False ih show ?thesis by (auto simp: less_Suc_eq)
  qed
qed

lemma searchIndex_last:
  assumes "spl_x sp \<noteq> []"
  shows "searchIndex sp (last (spl_x sp)) = length (spl_x sp) - 1"
proof -
  let ?n = "length (spl_x sp)"
  let ?P = "\<lambda>i. cmp_doubles_greater_or_equal (last (spl_x sp)) (spl_x sp ! i)"
  from assms have n: "0 < ?n" by simp
  have P: "?P (?n - 1)"
    using assms by (simp add: cmp_doubles_greater_or_equal_def last_conv_nth)
  from fold_last_index[OF refl, of ?P ?n]
  have "\<forall>m. searchIndex sp (last (spl_x sp)) < m \<and> m < ?n \<longrightarrow> \<not> ?P m"
    and "searchIndex sp (last (spl_x sp)) < ?n \<or> searchIndex sp (last (spl_x sp)) = 0"
    by (simp_all add: searchIndex_def)
  with P n show ?thesis
    by (metis Suc_pred' less_Suc_eq not_less_eq diff_less zero_less_one less_antisym)
qed

text \<open>
  Claim C7. The claim asks that the spline evaluates to \<open>y_i\<close> at every knot, the last one
  included. The coefficient arrays \<open>b_\<close> and \<open>d_\<close> have one entry per segment, that is one
  fewer than there are knots, and \<open>searchIndex\<close> returns the index of the last knot for an
  argument equal to it: the checked read \<open>b_.at(i)\<close> then throws. For every spline that the
  constructor builds from strictly increasing knots, the evaluation at the last knot is
  out of range.
\<close>

theorem calculatePoint_last_knot:
  assumes "Spline_new solve x y = Inr sp" and "sorted_wrt (<) x"
  shows "calculatePoint sp (last x) = Inl OutOfRange"
proof -
  from Spline_new_fields[OF assms(1)]
  have ne: "x \<noteq> []" and sx: "spl_x sp = x" and lb: "length (spl_b sp) = length x - 1" by simp_all
  have "sorted x" using assms(2) by (simp add: strict_sorted_imp_sorted)
  then have hl: "x ! 0 \<le> last x"
    using ne by (simp add: last_conv_nth sorted_iff_nth_mono)
  have si: "searchIndex sp (last x) = length x - 1"
    using searchIndex_last[of sp] ne sx by simp
  have rb: "rd (spl_b sp) (length x - 1) = Inl OutOfRange"
    using lb by (simp add: rd_def)
  show ?thesis
    using ne hl si rb sx
    by (cases "rd (spl_a sp) (length x - 1)")
       (auto simp: calculatePoint_def rd_def vec_back_def Let_def split: if_splits)
qed

lemma Spline_new_s1: "Spline_new (\<lambda>A B i. 0) s1_knots s1_knots = Inr s1_sx"
  by (simp add: Spline_new_def Spline_h_def Spline_bd_def calculateMatrixB_def s1_knots_def
      s1_sx_def size_t_minus_1_def for_loop.simps rd_def fdiv_def Let_def upt5 nth_append)

theorem calculatePoint_last_knot_witness:
  "Spline_new (\<lambda>A B i. 0) s1_knots s1_knots = Inr s1_sx \<and> sorted_wrt (<) s1_knots
   \<and> calculatePoint s1_sx (last s1_knots) = Inl OutOfRange"
  using calculatePoint_last_knot[OF Spline_new_s1] Spline_new_s1
  by (simp add: s1_knots_def)

lemma searchIndex_knot:
  assumes "sorted_wrt (<) (spl_x sp)" and "i < length (spl_x sp)"
  shows "searchIndex sp (spl_x sp ! i) = i"
proof -
  let ?x = "spl_x sp"
  let ?P = "\<lambda>m. cmp_doubles_greater_or_equal (?x ! i) (?x ! m)"
  let ?r = "searchIndex sp (?x ! i)"
  have mono: "\<And>m. m < length ?x \<Longrightarrow> ?P m \<longleftrightarrow> m \<le> i"
  proof -
    fix m assume m: "m < length ?x"
    show "?P m \<longleftrightarrow> m \<le> i"
    proof (cases "m \<le> i")
      case True
      then have "?x ! m \<le> ?x ! i"
        using assms sorted_wrt_nth_less[OF assms(1), of m i] by (cases "m = i") auto
      with True show ?thesis by (simp add: cmp_doubles_greater_or_equal_def)
    next
      case False
      then have "?x ! i < ?x ! m" using sorted_wrt_nth_less[OF assms(1), of i m] m by simp
      with False show ?thesis by (simp add: cmp_doubles_greater_or_equal_def)
    qed
  qed
  from fold_last_index[OF refl, of ?P "length ?x"]
  have a: "?r < length ?x \<or> ?r = 0" and b: "?P ?r \<or> ?r = 0"
    and c: "\<forall>m. ?r < m \<and> m < length ?x \<longrightarrow> \<not> ?P m"
    by (simp_all add: searchIndex_def)
  from a assms(2) have rl: "?r < length ?x" by auto
  from b rl mono have "?r \<le> i" by auto
  moreover have "\<not> ?r < i" using c assms(2) mono[of i] by auto
  ultimately show ?thesis by simp
qed

lemma calculatePoint_inner_knot:
  assumes "Spline_new solve x y = Inr sp" and "sorted_wrt (<) x" and "i + 1 < length x"
    and "length x \<le> length y"
  shows "calculatePoint sp (x ! i) = Inr (y ! i)"
proof -
  from Spline_new_fields[OF assms(1)]
  have ne: "x \<noteq> []" and sx: "spl_x sp = x" and sa: "spl_a sp = y"
    and lb: "length (spl_b sp) = length x - 1" and ld: "length (spl_d sp) = length x - 1"
    and lc: "length (spl_c sp) = length x" by simp_all
  have il: "i < length x" using assms(3) by simp
  have "sorted x" using assms(2) by (simp add: strict_sorted_imp_sorted)
  then have lo: "x ! 0 \<le> x ! i" and hi: "x ! i \<le> last x"
    using ne il by (simp_all add: last_conv_nth sorted_iff_nth_mono)
  have si: "searchIndex sp (x ! i) = i"
    using searchIndex_knot[of sp i] assms(2) il sx by simp
  show ?thesis
    using ne lo hi si sx sa lb ld lc il assms(3,4)
    by (simp add: calculatePoint_def rd_def vec_back_def Let_def)
qed

section \<open>The spline constructor on arbitrary input\<close>

lemma Spline_h_total:
  assumes "x \<noteq> []"
  shows "\<exists>h. Spline_h x = Inr h \<and> length h = length x - 1
             \<and> (\<forall>m<length x - 1. h ! m = x ! (m + 1) - x ! m)"
proof -
  let ?body = "\<lambda>i h. bindE (rd x (i + 1)) (\<lambda>x1. bindE (rd x i) (\<lambda>x0. Inr (h @ [x1 - x0])))"
  let ?P = "\<lambda>k h. length h = k \<and> (\<forall>m<k. h ! m = x ! (m + 1) - x ! m)"
  have "\<exists>h. for_loop 0 (length x - 1) ?body [] = Inr h \<and> ?P (length x - 1) h"
  proof (rule for_loop_total[where P = ?P])
    show "?P 0 []" by simp
  next
    show "0 \<le> length x - 1" by simp
  next
    fix k h assume k: "0 \<le> k" "k < length x - 1" and P: "?P k h"
    then have "?body k h = Inr (h @ [x ! (k + 1) - x ! k])" by (simp add: rd_def)
    moreover have "?P (Suc k) (h @ [x ! (k + 1) - x ! k])"
      using P by (auto simp: nth_append less_Suc_eq)
    ultimately show "\<exists>s'. ?body k h = Inr s' \<and> ?P (Suc k) s'" by blast
  qed
  then show ?thesis using assms by (simp add: Spline_h_def size_t_minus_1_def)
qed

lemma Spline_bd_total:
  assumes "length c = n" and "length h = n - 1" and "n \<le> length a" and "\<forall>m<n - 1. h ! m \<noteq> 0"
  shows "\<exists>d b. Spline_bd n a c h = Inr (d, b) \<and> length d = n - 1 \<and> length b = n - 1"
proof -
  let ?body = "\<lambda>i (d, b).
          bindE (rd c (i + 1)) (\<lambda>c1. bindE (rd c i) (\<lambda>c0. bindE (rd h i) (\<lambda>hi.
          bindE (fdiv (c1 - c0) (3 * hi)) (\<lambda>dv.
          bindE (rd a (i + 1)) (\<lambda>a1. bindE (rd a i) (\<lambda>a0.
          bindE (fdiv (a1 - a0) hi) (\<lambda>q.
            Inr (d @ [dv], b @ [q - hi * (c1 + 2 * c0) / 3]))))))))"
  let ?P = "\<lambda>k (st :: real list \<times> real list). length (fst st) = k \<and> length (snd st) = k"
  have "\<exists>st. for_loop 0 (n - 1) ?body ([], []) = Inr st \<and> ?P (n - 1) st"
  proof (rule for_loop_total[where P = ?P])
    show "?P 0 ([], [])" by simp
  next
    show "0 \<le> n - 1" by simp
  next
    fix k and st :: "real list \<times> real list"
    assume k: "0 \<le> k" "k < n - 1" and P: "?P k st"
    obtain d b where st: "st = (d, b)" by (cases st)
    from k assms have "h ! k \<noteq> 0" "k + 1 < length c" "k < length h" "k + 1 < length a"
      by auto
    then have "\<exists>dv bv. ?body k st = Inr (d @ [dv], b @ [bv])"
      by (simp add: st rd_def fdiv_def)
    with P st show "\<exists>s'. ?body k st = Inr s' \<and> ?P (Suc k) s'" by auto
  qed
  then show ?thesis by (auto simp: Spline_bd_def)
qed

lemma calculateMatrixB_total:
  assumes "n \<le> length a" and "length h = n - 1" and "\<forall>m<n - 1. h ! m \<noteq> 0"
  shows "\<exists>B. calculateMatrixB n a h = Inr B"
proof (cases "n = 5")
  case False
  then show ?thesis by (simp add: calculateMatrixB_def)
next
  case True
  with assms have "h ! 0 \<noteq> 0" "h ! 1 \<noteq> 0" "h ! 2 \<noteq> 0" "h ! 3 \<noteq> 0"
    "0 < length a" "1 < length a" "2 < length a" "3 < length a" "4 < length a"
    by auto
  with True show ?thesis by (simp add: calculateMatrixB_def rd_def fdiv_def)
qed

lemma Spline_new_empty: "Spline_new solve [] y = Inl OutOfRange"
  by (simp add: Spline_new_def Spline_h_def size_t_minus_1_def for_loop.simps rd_def)

text \<open>
  Claim C6, as amended. The spline constructor does not check its input. For every
  non-empty knot vector whose consecutive knots differ, with at least as many values as
  knots, it returns a spline with one set of coefficients for each segment: fewer than three
  waypoints and waypoints that are not monotone are accepted, and no error is raised.
\<close>

theorem Spline_new_accepts:
  assumes "x \<noteq> []" and "length x \<le> length y"
    and "\<forall>m. m + 1 < length x \<longrightarrow> x ! (m + 1) \<noteq> x ! m"
  shows "\<exists>sp. Spline_new solve x y = Inr sp \<and> spl_x sp = x \<and> spl_a sp = y
              \<and> length (spl_b sp) = length x - 1 \<and> length (spl_c sp) = length x
              \<and> length (spl_d sp) = length x - 1"
proof -
  from Spline_h_total[OF assms(1)] obtain h where
    h: "Spline_h x = Inr h" "length h = length x - 1"
    "\<forall>m<length x - 1. h ! m = x ! (m + 1) - x ! m" by blast
  have hz: "\<forall>m<length x - 1. h ! m \<noteq> 0"
    using h(3) assms(3) by (simp add: less_diff_conv)
  from calculateMatrixB_total[OF assms(2) h(2) hz] obtain B where
    B: "calculateMatrixB (length x) y h = Inr B" by blast
  let ?c = "map (solve (calculateMatrixA (length x) h) B) [0..<length x]"
  have "length ?c = length x" by simp
  from Spline_bd_total[OF this h(2) assms(2) hz] obtain d b where
    bd: "Spline_bd (length x) y ?c h = Inr (d, b)" "length d = length x - 1" "length b = length x - 1"
    by blast
  show ?thesis
    using h(1) B bd by (simp add: Spline_new_def Let_def)
qed

text \<open>
  The claim as stated, that invalid input fails fast with an error, fails: two waypoints,
  and three waypoints that are not monotone, both yield a spline.
\<close>

theorem Spline_new_invalid_input_counterexample:
  "Spline_new (\<lambda>A B i. 0) [0, 1] [0, 1]
     = Inr \<lparr>spl_x = [0, 1], spl_y = [0, 1], spl_num_x = 2, spl_a = [0, 1],
            spl_b = [1], spl_c = [0, 0], spl_d = [0]\<rparr>
   \<and> Spline_new (\<lambda>A B i. 0) [0, 2, 1] [0, 2, 1]
     = Inr \<lparr>spl_x = [0, 2, 1], spl_y = [0, 2, 1], spl_num_x = 3, spl_a = [0, 2, 1],
            spl_b = [1, 1], spl_c = [0, 0, 0], spl_d = [0, 0]\<rparr>"
  by (simp add: Spline_new_def Spline_h_def Spline_bd_def calculateMatrixB_def
      size_t_minus_1_def for_loop.simps rd_def fdiv_def Let_def nth_append eval_nat_numeral upt_rec)

theorem Spline_new_accepts_witness:
  "[0, 2, 1] \<noteq> ([] :: real list) \<and> length [0, 2, 1 :: real] \<le> length [0, 2, 1 :: real]
   \<and> (2::real) \<noteq> 0 \<and> (1::real) \<noteq> 2
   \<and> (\<exists>sp. Spline_new (\<lambda>A B i. 0) [0, 2, 1] [0, 2, 1] = Inr sp \<and> spl_x sp = [0, 2, 1]
              \<and> spl_a sp = [0, 2, 1]
              \<and> length (spl_b sp) = length [0, 2, 1 :: real] - 1
              \<and> length (spl_c sp) = length [0, 2, 1 :: real]
              \<and> length (spl_d sp) = length [0, 2, 1 :: real] - 1)"
proof -
  have h: "[0, 2, 1] \<noteq> ([] :: real list)" "length [0, 2, 1 :: real] \<le> length [0, 2, 1 :: real]"
    "\<forall>m. m + 1 < length [0, 2, 1 :: real] \<longrightarrow> [0, 2, 1 :: real] ! (m + 1) \<noteq> [0, 2, 1] ! m"
    by (simp_all add: nth_Cons' less_Suc_eq)
  note W = Spline_new_accepts[OF h, of "\<lambda>A B i. 0"]
  show ?thesis by (intro conjI W) simp_all
qed

section \<open>Properties of the sampling engine\<close>

lemma cells1_snoc: "cells1 i j (t1 @ [c]) = cells1 i j t1 \<union> {((i, j, int (length t1)), c)}"
proof -
  have "(\<lambda>k. ((i, j, int k), (t1 @ [c]) ! k)) ` {..<length t1}
        = (\<lambda>k. ((i, j, int k), t1 ! k)) ` {..<length t1}"
    by (rule image_cong) (simp_all add: nth_append)
  then show ?thesis by (simp add: cells1_def lessThan_Suc)
qed

lemma cells2_snoc: "cells2 i (t2 @ [t1]) = cells2 i t2 \<union> cells1 i (int (length t2)) t1"
proof -
  have "(\<Union>j<length t2. cells1 i (int j) ((t2 @ [t1]) ! j))
        = (\<Union>j<length t2. cells1 i (int j) (t2 ! j))"
    by (rule SUP_cong) (simp_all add: nth_append)
  then show ?thesis by (simp add: cells2_def lessThan_Suc Un_commute)
qed

lemma cells3_snoc: "cells3 (t3 @ [t2]) = cells3 t3 \<union> cells2 (int (length t3)) t2"
proof -
  have "(\<Union>i<length t3. cells2 (int i) ((t3 @ [t2]) ! i))
        = (\<Union>i<length t3. cells2 (int i) (t3 ! i))"
    by (rule SUP_cong) (simp_all add: nth_append)
  then show ?thesis by (simp add: cells3_def lessThan_Suc Un_commute)
qed

lemma cells_Nil [simp]: "cells1 i j [] = {}" "cells2 i [] = {}" "cells3 [] = {}"
  by (simp_all add: cells1_def cells2_def cells3_def)

lemma cells3_grid_get: "(q, c) \<in> cells3 g \<longleftrightarrow> grid_get g q = Inr c"
proof -
  obtain i j k where q: "q = (i, j, k)" by (cases q)
  show ?thesis
  proof
    assume "(q, c) \<in> cells3 g"
    then obtain i' j' k' where "i' < length g" "j' < length (g ! i')" "k' < length (g ! i' ! j')"
      "q = (int i', int j', int k')" "c = g ! i' ! j' ! k'"
      unfolding cells3_def cells2_def cells1_def by blast
    then show "grid_get g q = Inr c"
      by (simp add: grid_get_def rdi_def)
  next
    assume "grid_get g q = Inr c"
    then obtain g2 g1 where "rdi g i = Inr g2" "rdi g2 j = Inr g1" "rdi g1 k = Inr c"
      unfolding q grid_get_def by (auto elim!: bindE_InrE)
    then have r: "0 \<le> i" "nat i < length g" "0 \<le> j" "nat j < length (g ! nat i)" "0 \<le> k"
      "nat k < length (g ! nat i ! nat j)" "c = g ! nat i ! nat j ! nat k"
      by (auto simp: rdi_def split: if_splits)
    have "((int (nat i), int (nat j), int (nat k)), g ! nat i ! nat j ! nat k) \<in> cells3 g"
      unfolding cells3_def cells2_def cells1_def using r(2,4,6) by blast
    with r show "(q, c) \<in> cells3 g" by (simp add: q)
  qed
qed

lemma scan_inv_step:
  assumes "scan_inv V m"
  shows "scan_inv (V \<union> {(p, c)})
           (if est_cost c < fst m then (est_cost c, Some p) else (fst m, snd m))"
proof (cases "est_cost c < fst m")
  case True
  have le: "fst m \<le> DBL_MAX"
    using assms by (cases "snd m") (simp_all add: scan_inv_def)
  have a: "\<forall>q c'. (q, c') \<in> V \<union> {(p, c)} \<longrightarrow> est_cost c \<le> est_cost c'"
  proof (intro allI impI)
    fix q c' assume "(q, c') \<in> V \<union> {(p, c)}"
    then consider "(q, c') \<in> V" | "c' = c" by auto
    then show "est_cost c \<le> est_cost c'"
    proof cases
      case 1
      with assms have "fst m \<le> est_cost c'" unfolding scan_inv_def by blast
      with True show ?thesis by simp
    next
      case 2
      then show ?thesis by simp
    qed
  qed
  have b: "est_cost c < DBL_MAX" using True le by simp
  have c: "\<exists>c'. (p, c') \<in> V \<union> {(p, c)} \<and> est_cost c = est_cost c'" by blast
  show ?thesis
    unfolding scan_inv_def using True a b c
    by (simp only: if_True fst_conv snd_conv option.case simp_thms)
next
  case False
  have a: "\<forall>q c'. (q, c') \<in> V \<union> {(p, c)} \<longrightarrow> fst m \<le> est_cost c'"
  proof (intro allI impI)
    fix q c' assume "(q, c') \<in> V \<union> {(p, c)}"
    then consider "(q, c') \<in> V" | "c' = c" by auto
    then show "fst m \<le> est_cost c'"
    proof cases
      case 1
      with assms show ?thesis unfolding scan_inv_def by blast
    next
      case 2
      with False show ?thesis by simp
    qed
  qed
  have b: "case snd m of None \<Rightarrow> fst m = DBL_MAX
                 | Some p' \<Rightarrow> fst m < DBL_MAX \<and> (\<exists>c'. (p', c') \<in> V \<union> {(p, c)} \<and> fst m = est_cost c')"
    using assms by (cases "snd m") (auto simp: scan_inv_def)
  show ?thesis
    unfolding scan_inv_def using False a b
    by (simp only: if_False fst_conv snd_conv simp_thms)
qed

lemma sample_cell_step:
  assumes "max_t settings \<noteq> 0"
  shows "\<exists>c. sample_cell settings start lid d lat_cost v speed_cost delta_t i j k (t1, m)
               = Inr (t1 @ [c], if est_cost c < fst m then (est_cost c, Some (int i, int j, int k))
                                else (fst m, snd m))"
  using assms
  by (cases m) (simp add: sample_cell_def fdiv_def Let_def est_cost_def FrenetPath_new_def)

lemma sample_cells_loop:
  assumes "max_t settings \<noteq> 0" and "scan_inv V0 m0"
  shows "\<exists>t1 m. for_loop 0 n (sample_cell settings start lid d lat_cost v speed_cost delta_t i j)
                   ([], m0) = Inr (t1, m)
                 \<and> length t1 = n \<and> scan_inv (V0 \<union> cells1 (int i) (int j) t1) m"
proof -
  let ?P = "\<lambda>k st. length (fst st) = k \<and> scan_inv (V0 \<union> cells1 (int i) (int j) (fst st)) (snd st)"
  have "\<exists>st'. for_loop 0 n (sample_cell settings start lid d lat_cost v speed_cost delta_t i j)
                 ([], m0) = Inr st' \<and> ?P n st'"
  proof (rule for_loop_total[where P = ?P])
    show "?P 0 ([], m0)" using assms(2) by simp
  next
    show "0 \<le> n" by simp
  next
    fix k st assume k: "0 \<le> k" "k < n" and P: "?P k st"
    obtain t1 m where st: "st = (t1, m)" by (cases st)
    from sample_cell_step[OF assms(1), of start lid d lat_cost v speed_cost delta_t i j k t1 m]
    obtain c where c: "sample_cell settings start lid d lat_cost v speed_cost delta_t i j k (t1, m)
               = Inr (t1 @ [c], if est_cost c < fst m then (est_cost c, Some (int i, int j, int k))
                                else (fst m, snd m))" by blast
    from P st have len: "length t1 = k" and inv: "scan_inv (V0 \<union> cells1 (int i) (int j) t1) m"
      by simp_all
    from scan_inv_step[OF inv, of "(int i, int j, int k)" c]
    have "scan_inv (V0 \<union> cells1 (int i) (int j) (t1 @ [c]))
            (if est_cost c < fst m then (est_cost c, Some (int i, int j, int k)) else (fst m, snd m))"
      by (simp add: cells1_snoc len Un_assoc)
    with c len st
    show "\<exists>s'. sample_cell settings start lid d lat_cost v speed_cost delta_t i j k st = Inr s'
               \<and> ?P (Suc k) s'"
      by simp
  qed
  then show ?thesis by auto
qed

lemma sample_speed_step:
  assumes "max_t settings \<noteq> 0" and "num_t settings \<noteq> 1"
    and "scan_inv (V0 \<union> cells2 (int i) t2) m" and "length t2 = j"
  shows "\<exists>t1 m'. sample_speed settings start current_speed lid d lat_cost delta_v i j (t2, m)
                    = Inr (t2 @ [t1], m')
                  \<and> length t1 = nat (num_t settings)
                  \<and> scan_inv (V0 \<union> cells2 (int i) (t2 @ [t1])) m'"
proof -
  let ?v = "lowest_speed settings + real j * delta_v"
  let ?sc = "(highest_speed settings - ?v)\<^sup>2 + 0.5 * (current_speed - ?v)\<^sup>2"
  let ?dt = "(max_t settings - min_t settings) / real_of_int (num_t settings - 1)"
  from sample_cells_loop[OF assms(1,3), of "nat (num_t settings)" start lid d lat_cost ?v ?sc ?dt i j]
  obtain t1 m' where
    l: "for_loop 0 (nat (num_t settings))
          (sample_cell settings start lid d lat_cost ?v ?sc ?dt i j) ([], m) = Inr (t1, m')"
    and len: "length t1 = nat (num_t settings)"
    and inv: "scan_inv (V0 \<union> cells2 (int i) t2 \<union> cells1 (int i) (int j) t1) m'"
    by blast
  have "sample_speed settings start current_speed lid d lat_cost delta_v i j (t2, m)
          = Inr (t2 @ [t1], m')"
    using assms(2) l by (simp add: sample_speed_def fdiv_def Let_def)
  moreover have "scan_inv (V0 \<union> cells2 (int i) (t2 @ [t1])) m'"
    using inv assms(4) by (simp add: cells2_snoc Un_assoc)
  ultimately show ?thesis using len by blast
qed

lemma sample_speeds_loop:
  assumes "max_t settings \<noteq> 0" and "num_t settings \<noteq> 1" and "scan_inv V0 m0"
  shows "\<exists>t2 m. for_loop 0 n (sample_speed settings start current_speed lid d lat_cost delta_v i)
                   ([], m0) = Inr (t2, m)
                 \<and> length t2 = n \<and> (\<forall>r\<in>set t2. length r = nat (num_t settings))
                 \<and> scan_inv (V0 \<union> cells2 (int i) t2) m"
proof -
  let ?P = "\<lambda>j st. length (fst st) = j \<and> (\<forall>r\<in>set (fst st). length r = nat (num_t settings))
                    \<and> scan_inv (V0 \<union> cells2 (int i) (fst st)) (snd st)"
  have "\<exists>st'. for_loop 0 n (sample_speed settings start current_speed lid d lat_cost delta_v i)
                 ([], m0) = Inr st' \<and> ?P n st'"
  proof (rule for_loop_total[where P = ?P])
    show "?P 0 ([], m0)" using assms(3) by simp
  next
    show "0 \<le> n" by simp
  next
    fix j st assume "0 \<le> j" "j < n" and P: "?P j st"
    obtain t2 m where st: "st = (t2, m)" by (cases st)
    from P st have len: "length t2 = j" and rows: "\<forall>r\<in>set t2. length r = nat (num_t settings)"
      and inv: "scan_inv (V0 \<union> cells2 (int i) t2) m"
      by simp_all
    from sample_speed_step[OF assms(1,2) inv len, of start current_speed lid d lat_cost delta_v]
    obtain t1 m' where
      "sample_speed settings start current_speed lid d lat_cost delta_v i j (t2, m) = Inr (t2 @ [t1], m')"
      "length t1 = nat (num_t settings)" "scan_inv (V0 \<union> cells2 (int i) (t2 @ [t1])) m'"
      by blast
    with len rows st
    show "\<exists>s'. sample_speed settings start current_speed lid d lat_cost delta_v i j st = Inr s'
               \<and> ?P (Suc j) s'"
      by simp
  qed
  then show ?thesis by auto
qed

lemma sample_width_step:
  assumes "max_t settings \<noteq> 0" and "num_t settings \<noteq> 1" and "num_speed settings \<noteq> 1"
    and "left_bound \<noteq> center_offset settings \<or> right_bound \<noteq> center_offset settings"
    and "scan_inv (cells3 t3) m" and "length t3 = i"
  shows "\<exists>t2 m'. sample_width settings start current_speed lid left_bound right_bound delta_width i
                     (t3, m) = Inr (t3 @ [t2], m')
                  \<and> length t2 = nat (num_speed settings)
                  \<and> (\<forall>r\<in>set t2. length r = nat (num_t settings))
                  \<and> scan_inv (cells3 (t3 @ [t2])) m'"
proof -
  let ?d = "right_bound + real i * delta_width"
  let ?ln = "max ((left_bound - center_offset settings)\<^sup>2) ((right_bound - center_offset settings)\<^sup>2)"
  let ?lc = "(?d - center_offset settings)\<^sup>2 / ?ln"
  let ?dv = "(highest_speed settings - lowest_speed settings) / real_of_int (num_speed settings - 1)"
  have ln: "?ln \<noteq> 0"
  proof -
    from assms(4) have "0 < (left_bound - center_offset settings)\<^sup>2
                        \<or> 0 < (right_bound - center_offset settings)\<^sup>2"
      by auto
    then have "0 < ?ln" by (auto simp: less_max_iff_disj)
    then show ?thesis by simp
  qed
  from sample_speeds_loop[OF assms(1,2,5), of "nat (num_speed settings)" start current_speed lid ?d ?lc ?dv i]
  obtain t2 m' where
    l: "for_loop 0 (nat (num_speed settings))
          (sample_speed settings start current_speed lid ?d ?lc ?dv i) ([], m) = Inr (t2, m')"
    and len: "length t2 = nat (num_speed settings)"
    and rows: "\<forall>r\<in>set t2. length r = nat (num_t settings)"
    and inv: "scan_inv (cells3 t3 \<union> cells2 (int i) t2) m'"
    by blast
  have "sample_width settings start current_speed lid left_bound right_bound delta_width i (t3, m)
          = Inr (t3 @ [t2], m')"
    using assms(3) ln l by (simp add: sample_width_def fdiv_def Let_def)
  moreover have "scan_inv (cells3 (t3 @ [t2])) m'"
    using inv assms(6) by (simp add: cells3_snoc)
  ultimately show ?thesis using len rows by blast
qed

lemma sampleEndStates_scan:
  assumes "3 \<le> num_width settings" and "2 \<le> num_speed settings" and "2 \<le> num_t settings"
    and "max_t settings \<noteq> 0"
    and "left_bound \<noteq> center_offset settings \<or> right_bound \<noteq> center_offset settings"
  shows "\<exists>g min_cost idx.
           sampleEndStates settings start lid left_bound right_bound current_speed = Inr (g, idx)
           \<and> length g = nat (num_width settings)
           \<and> (\<forall>t2\<in>set g. length t2 = nat (num_speed settings)
                            \<and> (\<forall>r\<in>set t2. length r = nat (num_t settings)))
           \<and> scan_inv (cells3 g) (min_cost, idx)"
proof -
  let ?dw = "(left_bound - center_offset settings) / real_of_int ((num_width settings - 1) sdiv 2)"
  let ?body = "sample_width settings start current_speed lid left_bound right_bound ?dw"
  let ?P = "\<lambda>i st. length (fst st) = i
                    \<and> (\<forall>t2\<in>set (fst st). length t2 = nat (num_speed settings)
                            \<and> (\<forall>r\<in>set t2. length r = nat (num_t settings)))
                    \<and> scan_inv (cells3 (fst st)) (snd st)"
  have ns: "num_speed settings \<noteq> 1" and nt: "num_t settings \<noteq> 1" using assms(2,3) by simp_all
  have "2 \<le> num_width settings - 1" using assms(1) by simp
  then have "1 \<le> (num_width settings - 1) sdiv 2"
    by (simp add: signed_divide_int_def sgn_if)
  then have dw: "real_of_int ((num_width settings - 1) sdiv 2) \<noteq> 0" by simp
  have "\<exists>st'. for_loop 0 (nat (num_width settings)) ?body ([], DBL_MAX, None) = Inr st'
              \<and> ?P (nat (num_width settings)) st'"
  proof (rule for_loop_total[where P = ?P])
    show "?P 0 ([], DBL_MAX, None)" by (simp add: scan_inv_def)
  next
    show "0 \<le> nat (num_width settings)" by simp
  next
    fix i st assume "0 \<le> i" "i < nat (num_width settings)" and P: "?P i st"
    obtain t3 m where st: "st = (t3, m)" by (cases st)
    from P st have len: "length t3 = i"
      and rows: "\<forall>t2\<in>set t3. length t2 = nat (num_speed settings)
                            \<and> (\<forall>r\<in>set t2. length r = nat (num_t settings))"
      and inv: "scan_inv (cells3 t3) m"
      by simp_all
    from sample_width_step[OF assms(4) nt ns assms(5) inv len, of start current_speed lid ?dw]
    obtain t2 m' where
      "?body i (t3, m) = Inr (t3 @ [t2], m')" "length t2 = nat (num_speed settings)"
      "\<forall>r\<in>set t2. length r = nat (num_t settings)" "scan_inv (cells3 (t3 @ [t2])) m'"
      by blast
    with len rows st show "\<exists>s'. ?body i st = Inr s' \<and> ?P (Suc i) s'"
      by simp
  qed
  then obtain g m where l: "for_loop 0 (nat (num_width settings)) ?body ([], DBL_MAX, None) = Inr (g, m)"
    and P: "?P (nat (num_width settings)) (g, m)"
    by auto
  obtain mc idx where m: "m = (mc, idx)" by (cases m)
  have "sampleEndStates settings start lid left_bound right_bound current_speed = Inr (g, idx)"
    using dw l m by (simp add: sampleEndStates_def fdiv_def)
  with P m show ?thesis by auto
qed

text \<open>
  The scan of the sampler in general. For a configuration in which no step of the sampling
  divides by zero (at least three lateral samples, at least two speeds and two horizons, a
  nonzero \<open>max_t\<close>, and a lane bound different from the centre offset), \<open>sampleEndStates\<close>
  returns the whole grid, \<open>num_width\<close> planes of \<open>num_speed\<close> rows of \<open>num_t\<close> cells each, and
  an index. If some cell has an estimated cost \<open>fix_cost + hur_cost\<close> below the largest double,
  the index is assigned, it lies in the grid, and the estimated cost of its cell is at most
  that of every cell of the grid. The index is left without a value only if no cell has an
  estimated cost below the largest double.
\<close>

lemma sampleEndStates_scan_result:
  assumes "3 \<le> num_width settings" and "2 \<le> num_speed settings" and "2 \<le> num_t settings"
    and "max_t settings \<noteq> 0"
    and "left_bound \<noteq> center_offset settings \<or> right_bound \<noteq> center_offset settings"
  shows "\<exists>g idx.
           sampleEndStates settings start lid left_bound right_bound current_speed = Inr (g, idx)
           \<and> length g = nat (num_width settings)
           \<and> (\<forall>t2\<in>set g. length t2 = nat (num_speed settings)
                            \<and> (\<forall>r\<in>set t2. length r = nat (num_t settings)))
           \<and> (case idx of
                 None \<Rightarrow> \<forall>q c. grid_get g q = Inr c \<longrightarrow> DBL_MAX \<le> fix_cost c + hur_cost c
               | Some p \<Rightarrow>
                   \<exists>c. grid_get g p = Inr c \<and> fix_cost c + hur_cost c < DBL_MAX
                       \<and> (\<forall>q c'. grid_get g q = Inr c'
                              \<longrightarrow> fix_cost c + hur_cost c \<le> fix_cost c' + hur_cost c'))"
proof -
  from sampleEndStates_scan[OF assms, of start lid current_speed]
  obtain g mc idx where
    r: "sampleEndStates settings start lid left_bound right_bound current_speed = Inr (g, idx)"
    and sz: "length g = nat (num_width settings)"
      "\<forall>t2\<in>set g. length t2 = nat (num_speed settings)
                            \<and> (\<forall>r\<in>set t2. length r = nat (num_t settings))"
    and inv: "scan_inv (cells3 g) (mc, idx)"
    by blast
  from inv have le: "\<forall>q c. grid_get g q = Inr c \<longrightarrow> mc \<le> fix_cost c + hur_cost c"
    by (simp add: scan_inv_def cells3_grid_get est_cost_def)
  have "case idx of
          None \<Rightarrow> \<forall>q c. grid_get g q = Inr c \<longrightarrow> DBL_MAX \<le> fix_cost c + hur_cost c
        | Some p \<Rightarrow>
            \<exists>c. grid_get g p = Inr c \<and> fix_cost c + hur_cost c < DBL_MAX
                \<and> (\<forall>q c'. grid_get g q = Inr c'
                       \<longrightarrow> fix_cost c + hur_cost c \<le> fix_cost c' + hur_cost c')"
  proof (cases idx)
    case None
    with inv have "mc = DBL_MAX" by (simp add: scan_inv_def)
    with le None show ?thesis by simp
  next
    case (Some p)
    with inv obtain c where "mc < DBL_MAX" "grid_get g p = Inr c" "mc = fix_cost c + hur_cost c"
      by (auto simp: scan_inv_def cells3_grid_get est_cost_def)
    with le Some show ?thesis by auto
  qed
  with r sz show ?thesis by blast
qed

text \<open>The configuration of the first scenario is one of these.\<close>

lemma sampleEndStates_scan_result_s1:
  "\<exists>g idx.
     sampleEndStates s1_settings s1_start 0 1 (- 1) 5 = Inr (g, idx)
     \<and> length g = nat (num_width s1_settings)
     \<and> (\<forall>t2\<in>set g. length t2 = nat (num_speed s1_settings)
                      \<and> (\<forall>r\<in>set t2. length r = nat (num_t s1_settings)))
     \<and> (case idx of
           None \<Rightarrow> \<forall>q c. grid_get g q = Inr c \<longrightarrow> DBL_MAX \<le> fix_cost c + hur_cost c
         | Some p \<Rightarrow>
             \<exists>c. grid_get g p = Inr c \<and> fix_cost c + hur_cost c < DBL_MAX
                 \<and> (\<forall>q c'. grid_get g q = Inr c'
                        \<longrightarrow> fix_cost c + hur_cost c \<le> fix_cost c' + hur_cost c'))"
proof -
  have h: "3 \<le> num_width s1_settings" "2 \<le> num_speed s1_settings" "2 \<le> num_t s1_settings"
    "max_t s1_settings \<noteq> 0" "(1::real) \<noteq> center_offset s1_settings"
    by (simp_all add: s1_fields)
  have d: "(1::real) \<noteq> center_offset s1_settings \<or> (- 1::real) \<noteq> center_offset s1_settings"
    using h(5) by simp
  show ?thesis by (rule sampleEndStates_scan_result[OF h(1-4) d, of s1_start 0 5])
qed

text \<open>
  The first scenario with the weight \<open>k_lon\<close> set to the largest double and \<open>k_diff\<close> to 2:
  which cells have an estimated cost below the largest double, which cells have exactly that
  cost, and what the planning call makes of the index.
\<close>

lemma DBL_MAX_pos: "0 < DBL_MAX"
  by (simp add: DBL_MAX_def)

lemma sampleEndStates_huge_below:
  "map_sum id (\<lambda>(g, idx). (map (map (map (\<lambda>c. fix_cost c + hur_cost c < DBL_MAX))) g, idx))
     (sampleEndStates huge_settings s1_start 0 1 (- 1) 5)
   = Inr ([[[False, False, False], [False, False, False], [False, False, False]],
           [[False, False, False], [False, False, False], [False, False, False]],
           [[False, False, False], [False, False, False], [False, False, False]]], None)"
  using DBL_MAX_pos
  by (simp add: sampleEndStates_def sample_width_def sample_speed_def sample_cell_def fdiv_def
      huge_fields s1_start_def for_loop.simps Let_def FrenetPath_new_def power2_eq_square)

lemma sampleEndStates_huge_least:
  "map_sum id (\<lambda>(g, idx). map (map (map (\<lambda>c. fix_cost c + hur_cost c = DBL_MAX))) g)
     (sampleEndStates huge_settings s1_start 0 1 (- 1) 5)
   = Inr [[[False, False, False], [False, False, False], [False, False, False]],
          [[False, False, False], [False, False, False], [False, False, True]],
          [[False, False, False], [False, False, False], [False, False, False]]]"
  using DBL_MAX_pos
  by (simp add: sampleEndStates_def sample_width_def sample_speed_def sample_cell_def fdiv_def
      huge_fields s1_start_def for_loop.simps Let_def FrenetPath_new_def power2_eq_square)

lemma frenetOptimalPlanning_huge:
  "frenetOptimalPlanning ext huge_settings q0 sp s1_start 0 1 (- 1) 5 [] chk ua
   = Some (Inl Uninitialised)"
  using DBL_MAX_pos
  by (simp add: frenetOptimalPlanning_def sampleEndStates_def sample_width_def sample_speed_def
      sample_cell_def fdiv_def huge_fields s1_start_def for_loop.simps Let_def FrenetPath_new_def
      power2_eq_square rd_def)

text \<open>
  Claim C8. The claim asks that the index returned by \<open>sampleEndStates\<close> is the argmin of the
  estimated cost \<open>fix_cost + hur_cost\<close> over the whole grid of \<open>num_width\<close> by \<open>num_speed\<close> by
  \<open>num_t\<close> cells, for every grid it builds. The source declares the index without a value,
  starts the running minimum at the largest double, and assigns the index only under
  \<open>est_cost < min_cost\<close>. In the first scenario with \<open>k_lon\<close> the largest double and \<open>k_diff\<close>
  2 (left bound 1, right bound -1, current speed 5), the sampler builds all 3 by 3 by 3
  cells; no cell has an estimated cost below the largest double, so the test never succeeds
  and the index comes back without a value; the cell \<open>(1, 2, 2)\<close>, and no other, has an
  estimated cost equal to the largest double, so it is the argmin of the grid and is not what
  is returned; and the planning call goes on to read the index.
\<close>

theorem sampleEndStates_leaves_index_unassigned:
  "map_sum id (\<lambda>(g, idx). (map (map (map (\<lambda>c. fix_cost c + hur_cost c < DBL_MAX))) g, idx))
     (sampleEndStates huge_settings s1_start 0 1 (- 1) 5)
     = Inr ([[[False, False, False], [False, False, False], [False, False, False]],
             [[False, False, False], [False, False, False], [False, False, False]],
             [[False, False, False], [False, False, False], [False, False, False]]], None)
   \<and> map_sum id (\<lambda>(g, idx). map (map (map (\<lambda>c. fix_cost c + hur_cost c = DBL_MAX))) g)
       (sampleEndStates huge_settings s1_start 0 1 (- 1) 5)
     = Inr [[[False, False, False], [False, False, False], [False, False, False]],
            [[False, False, False], [False, False, False], [False, False, True]],
            [[False, False, False], [False, False, False], [False, False, False]]]
   \<and> frenetOptimalPlanning ext huge_settings q0 sp s1_start 0 1 (- 1) 5 [] chk ua
     = Some (Inl Uninitialised)"
  by (intro conjI sampleEndStates_huge_below sampleEndStates_huge_least
      frenetOptimalPlanning_huge)

section \<open>Properties of the real cost\<close>

lemma sample_times_total:
  assumes "0 < dt" shows "\<exists>ts. sample_times t T dt = Some ts"
proof (induction "nat (\<lfloor>(T - t) / dt\<rfloor> + 1)" arbitrary: t rule: less_induct)
  case less
  show ?case
  proof (cases "t \<le> T")
    case False
    then show ?thesis by (subst sample_times.simps) simp
  next
    case True
    then have nn: "0 \<le> (T - t) / dt" using assms by simp
    have "(T - (t + dt)) / dt = (T - t) / dt - 1"
      using assms by (simp add: field_simps)
    then have "\<lfloor>(T - (t + dt)) / dt\<rfloor> = \<lfloor>(T - t) / dt\<rfloor> - 1" by simp
    moreover have "0 \<le> \<lfloor>(T - t) / dt\<rfloor>" using nn by simp
    ultimately have "nat (\<lfloor>(T - (t + dt)) / dt\<rfloor> + 1) < nat (\<lfloor>(T - t) / dt\<rfloor> + 1)"
      by simp
    from less[OF this] obtain ts where "sample_times (t + dt) T dt = Some ts" by blast
    then show ?thesis using True by (subst sample_times.simps) simp
  qed
qed

lemma lateral_samples_result:
  "traj_d_ddd (fst (lateral_samples p ts (tr, j))) = traj_d_ddd tr @ map (p 3) ts
   \<and> snd (lateral_samples p ts (tr, j)) = j + (\<Sum>t\<leftarrow>ts. (p 3 t)\<^sup>2)
   \<and> traj_s_ddd (fst (lateral_samples p ts (tr, j))) = traj_s_ddd tr
   \<and> fix_cost (fst (lateral_samples p ts (tr, j))) = fix_cost tr
   \<and> is_generated (fst (lateral_samples p ts (tr, j))) = is_generated tr
   \<and> end_state (fst (lateral_samples p ts (tr, j))) = end_state tr"
  by (induction ts arbitrary: tr j) (simp_all add: algebra_simps)

lemma lateral_samples_fields:
  "lateral_samples p ts (tr, j) = (tr', j') \<Longrightarrow>
     traj_d_ddd tr' = traj_d_ddd tr @ map (p 3) ts \<and> j' = j + (\<Sum>t\<leftarrow>ts. (p 3 t)\<^sup>2)
     \<and> traj_s_ddd tr' = traj_s_ddd tr \<and> fix_cost tr' = fix_cost tr
     \<and> is_generated tr' = is_generated tr \<and> end_state tr' = end_state tr"
  using lateral_samples_result[of p ts tr j] by simp

lemma longitudinal_samples_result:
  "traj_s_ddd (fst (longitudinal_samples p ts (tr, j))) = traj_s_ddd tr @ map (p 3) ts
   \<and> snd (longitudinal_samples p ts (tr, j)) = j + (\<Sum>t\<leftarrow>ts. (p 3 t)\<^sup>2)
   \<and> traj_d_ddd (fst (longitudinal_samples p ts (tr, j))) = traj_d_ddd tr
   \<and> fix_cost (fst (longitudinal_samples p ts (tr, j))) = fix_cost tr
   \<and> is_generated (fst (longitudinal_samples p ts (tr, j))) = is_generated tr
   \<and> end_state (fst (longitudinal_samples p ts (tr, j))) = end_state tr"
  by (induction ts arbitrary: tr j) (simp_all add: algebra_simps)

lemma longitudinal_samples_fields:
  "longitudinal_samples p ts (tr, j) = (tr', j') \<Longrightarrow>
     traj_s_ddd tr' = traj_s_ddd tr @ map (p 3) ts \<and> j' = j + (\<Sum>t\<leftarrow>ts. (p 3 t)\<^sup>2)
     \<and> traj_d_ddd tr' = traj_d_ddd tr \<and> fix_cost tr' = fix_cost tr
     \<and> is_generated tr' = is_generated tr \<and> end_state tr' = end_state tr"
  using longitudinal_samples_result[of p ts tr j] by simp

lemma grid_get_set:
  assumes "grid_get g idx = Inr cell"
  shows "grid_get (grid_set g idx c) idx = Inr c"
proof -
  obtain i j k where idx: "idx = (i, j, k)" by (cases idx)
  from assms idx obtain g2 g1 where a: "rdi g i = Inr g2" "rdi g2 j = Inr g1" "rdi g1 k = Inr cell"
    by (auto simp: grid_get_def elim!: bindE_InrE)
  then have r: "0 \<le> i" "i < int (length g)" "g2 = g ! nat i" "0 \<le> j" "j < int (length g2)"
    "g1 = g2 ! nat j" "0 \<le> k" "k < int (length g1)"
    by (auto simp: rdi_def split: if_splits)
  then have "nat i < length g" "nat j < length (g ! nat i)" "nat k < length (g ! nat i ! nat j)"
    by simp_all
  with r show ?thesis
    by (simp add: grid_get_def grid_set_def idx rdi_def)
qed

lemma sum_sq_nonneg: "0 \<le> (\<Sum>v\<leftarrow>xs. v\<^sup>2)" for xs :: "real list"
  by (induction xs) simp_all

text \<open>
  Claim C9, as amended. For a cell of the grid that has not been generated, with no jerk
  samples yet, and a positive tick, \<open>getTrajAndRealCost\<close> returns; afterwards the cell is
  generated and queued, \<open>final_cost = fix_cost + dyn_cost\<close> with
  \<open>dyn_cost = k_jerk * (k_lon * sum s_ddd\<^sup>2 + k_lat * sum d_ddd\<^sup>2)\<close>, the value returned is
  \<open>final_cost\<close>, and \<open>final_cost \<ge> fix_cost\<close> whenever the three weights are not negative.
\<close>

theorem getTrajAndRealCost_costs:
  assumes cell: "grid_get (trajs ps) idx = Inr cell"
    and fresh: "\<not> is_generated cell" "traj_s_ddd cell = []" "traj_d_ddd cell = []"
    and tick: "0 < tick_t settings"
  shows "\<exists>cost ps' cell'.
           getTrajAndRealCost quin quar settings start ps idx = Inr (cost, ps')
           \<and> grid_get (trajs ps') idx = Inr cell' \<and> is_generated cell'
           \<and> candidate_trajs ps' = queue_push cell' (candidate_trajs ps)
           \<and> cost = final_cost cell' \<and> fix_cost cell' = fix_cost cell
           \<and> final_cost cell' = fix_cost cell' + dyn_cost cell'
           \<and> dyn_cost cell' =
                k_jerk settings * (k_lon settings * (\<Sum>v\<leftarrow>traj_s_ddd cell'. v\<^sup>2)
                                   + k_lat settings * (\<Sum>v\<leftarrow>traj_d_ddd cell'. v\<^sup>2))
           \<and> (0 \<le> k_jerk settings \<and> 0 \<le> k_lon settings \<and> 0 \<le> k_lat settings
                \<longrightarrow> fix_cost cell' \<le> final_cost cell')"
proof -
  let ?c1 = "cell\<lparr>is_generated := True\<rparr>"
  from sample_times_total[OF tick] obtain ts where
    ts: "sample_times 0 (st_T (end_state ?c1)) (tick_t settings) = Some ts" by blast
  obtain c2 jd where lat: "lateral_samples (quin start (end_state ?c1)) ts (?c1, 0) = (c2, jd)"
    by (cases "lateral_samples (quin start (end_state ?c1)) ts (?c1, 0)")
  obtain c3 js where lon: "longitudinal_samples (quar start (end_state c2)) ts (c2, 0) = (c3, js)"
    by (cases "longitudinal_samples (quar start (end_state c2)) ts (c2, 0)")
  let ?dyn = "k_jerk settings * (k_lon settings * js + k_lat settings * jd)"
  let ?c5 = "c3\<lparr>dyn_cost := ?dyn, final_cost := fix_cost c3 + ?dyn\<rparr>"
  let ?ps' = "ps\<lparr>trajs := grid_set (trajs ps) idx ?c5, num_traj := num_traj ps + 1,
                   candidate_trajs := queue_push ?c5 (candidate_trajs ps)\<rparr>"
  have run: "getTrajAndRealCost quin quar settings start ps idx = Inr (final_cost ?c5, ?ps')"
    using cell fresh(1) ts lat lon
    by (simp add: getTrajAndRealCost_def Let_def)
  from lateral_samples_fields[OF lat] fresh
  have f2: "traj_d_ddd c2 = map (quin start (end_state ?c1) 3) ts"
    "jd = (\<Sum>t\<leftarrow>ts. (quin start (end_state ?c1) 3 t)\<^sup>2)" "traj_s_ddd c2 = []"
    "fix_cost c2 = fix_cost cell" "is_generated c2"
    by simp_all
  from longitudinal_samples_fields[OF lon] f2
  have f3: "traj_s_ddd c3 = map (quar start (end_state c2) 3) ts"
    "js = (\<Sum>t\<leftarrow>ts. (quar start (end_state c2) 3 t)\<^sup>2)"
    "traj_d_ddd c3 = map (quin start (end_state ?c1) 3) ts"
    "fix_cost c3 = fix_cost cell" "is_generated c3"
    by simp_all
  have jd: "(\<Sum>v\<leftarrow>traj_d_ddd ?c5. v\<^sup>2) = jd"
    using f2(2) f3(3) by (simp add: comp_def)
  have js: "(\<Sum>v\<leftarrow>traj_s_ddd ?c5. v\<^sup>2) = js"
    using f3(1,2) by (simp add: comp_def)
  have nn: "0 \<le> jd" "0 \<le> js"
    unfolding f2(2) f3(2) by (auto intro!: sum_list_nonneg)
  have mono: "0 \<le> k_jerk settings \<and> 0 \<le> k_lon settings \<and> 0 \<le> k_lat settings
              \<longrightarrow> fix_cost ?c5 \<le> final_cost ?c5"
  proof
    assume w: "0 \<le> k_jerk settings \<and> 0 \<le> k_lon settings \<and> 0 \<le> k_lat settings"
    then have "0 \<le> ?dyn" using nn by (intro mult_nonneg_nonneg add_nonneg_nonneg) simp_all
    then show "fix_cost ?c5 \<le> final_cost ?c5" by simp
  qed
  show ?thesis
    apply (rule exI[of _ "final_cost ?c5"], rule exI[of _ ?ps'], rule exI[of _ ?c5])
    apply (intro conjI)
    subgoal by (rule run)
    subgoal using grid_get_set[OF cell] by simp
    subgoal using f3(5) by simp
    subgoal by simp
    subgoal by simp
    subgoal using f3(4) by simp
    subgoal by simp
    subgoal using jd js by simp
    subgoal by (rule mono)
    done
qed

lemma seed_cell_fields:
  "is_generated seed_cell = False" "traj_s_ddd seed_cell = []" "traj_d_ddd seed_cell = []"
  "fix_cost seed_cell = 1" "st_T (end_state seed_cell) = 2"
  by (simp_all add: seed_cell_def FrenetPath_new_def)

lemma seed_state_fields:
  "trajs seed_state = [[[seed_cell]]]" "num_traj seed_state = 0" "candidate_trajs seed_state = []"
  by (simp_all add: seed_state_def)

lemma grid_get_seed: "grid_get (trajs seed_state) (0, 0, 0) = Inr seed_cell"
  by (simp add: grid_get_def rdi_def seed_state_def)

text \<open>
  The claim as stated, \<open>final_cost \<ge> fix_cost\<close> always, fails for a negative weight: with
  \<open>k_jerk = -1\<close> the generated candidate has \<open>fix_cost = 1\<close>, \<open>dyn_cost = -108\<close> and
  \<open>final_cost = -107\<close>.
\<close>

theorem getTrajAndRealCost_negative_weight_counterexample:
  "map_sum id (\<lambda>(cost, ps). (cost, map (\<lambda>c. (is_generated c, fix_cost c, dyn_cost c, final_cost c))
                                      (candidate_trajs ps)))
     (getTrajAndRealCost zero_profile cubic_profile (s1_settings\<lparr>k_jerk := - 1\<rparr>) s1_start
        seed_state (0, 0, 0))
   = Inr (- 107, [(True, 1, - 108, - 107)])"
  by (simp add: getTrajAndRealCost_def grid_get_seed seed_cell_fields sample_times_0_2_1
      s1_fields Let_def zero_profile_def cubic_profile_def queue_push_def seed_state_fields(2,3))

theorem getTrajAndRealCost_costs_witness:
  "grid_get (trajs seed_state) (0, 0, 0) = Inr seed_cell
   \<and> \<not> is_generated seed_cell \<and> traj_s_ddd seed_cell = [] \<and> traj_d_ddd seed_cell = []
   \<and> 0 < tick_t s1_settings
   \<and> (\<exists>cost ps' cell'.
           getTrajAndRealCost zero_profile cubic_profile s1_settings s1_start seed_state (0, 0, 0)
             = Inr (cost, ps')
           \<and> grid_get (trajs ps') (0, 0, 0) = Inr cell' \<and> is_generated cell'
           \<and> candidate_trajs ps' = queue_push cell' (candidate_trajs seed_state)
           \<and> cost = final_cost cell' \<and> fix_cost cell' = fix_cost seed_cell
           \<and> final_cost cell' = fix_cost cell' + dyn_cost cell'
           \<and> dyn_cost cell' =
                k_jerk s1_settings * (k_lon s1_settings * (\<Sum>v\<leftarrow>traj_s_ddd cell'. v\<^sup>2)
                                      + k_lat s1_settings * (\<Sum>v\<leftarrow>traj_d_ddd cell'. v\<^sup>2))
           \<and> (0 \<le> k_jerk s1_settings \<and> 0 \<le> k_lon s1_settings \<and> 0 \<le> k_lat s1_settings
                \<longrightarrow> fix_cost cell' \<le> final_cost cell'))"
proof -
  have h: "\<not> is_generated seed_cell" "traj_s_ddd seed_cell = []" "traj_d_ddd seed_cell = []"
    "0 < tick_t s1_settings"
    by (simp_all add: seed_cell_fields s1_fields)
  note W = getTrajAndRealCost_costs[OF grid_get_seed h, of zero_profile cubic_profile s1_start]
  show ?thesis
    by (intro conjI grid_get_seed h W)
qed

section \<open>Properties of the search\<close>

lemma findGradients_corner:
  "map_sum id fst (findGradients quin quar flat_settings s1_start corner_state (1, 1, 1))
   = Inr (0, 0, 0)"
  by (simp add: findGradients_def gradient_dim_def getTrajAndRealCost_def
      findDirection_def grid_get_def grid_set_def rdi_def rd_def vec3_def vec3_set_def
      corner_state_def corner_cell_def FrenetPath_new_def sample_times_small flat_fields
      queue_push_def Let_def for_loop.simps eval_nat_numeral)

lemma findNextBest_corner:
  "map_sum id (\<lambda>(converged, ps, idx). (converged, idx))
     (findNextBest quin quar flat_settings s1_start (corner_state, (1, 1, 1)))
   = Inr (False, (2, 1, 1))"
  by (simp add: findNextBest_def findGradients_def gradient_dim_def getTrajAndRealCost_def
      findDirection_def max_gradient_def grid_get_def grid_set_def rdi_def rd_def vec3_def vec3_set_def
      corner_state_def corner_cell_def FrenetPath_new_def sample_times_small flat_fields
      queue_push_def Let_def for_loop.simps eval_nat_numeral)

lemma search_corner:
  "search quin quar flat_settings s1_start (corner_state, (1, 1, 1)) = Some (Inl OutOfRange)"
  by (simp add: search.simps findNextBest_def findGradients_def gradient_dim_def getTrajAndRealCost_def
      findDirection_def max_gradient_def grid_get_def grid_set_def rdi_def rd_def vec3_def vec3_set_def
      corner_state_def corner_cell_def FrenetPath_new_def sample_times_small flat_fields
      queue_push_def Let_def for_loop.simps eval_nat_numeral)

lemma sampleEndStates_flat:
  "map_sum id (\<lambda>(g, idx). (map (map (map fix_cost)) g, idx))
     (sampleEndStates flat_settings s1_start 0 1 (- 1) 5)
   = Inr ([[[5, 19 / 4, 9 / 2], [3 / 2, 5 / 4, 1], [1, 3 / 4, 1 / 2]],
           [[5, 19 / 4, 9 / 2], [3 / 2, 5 / 4, 1], [1, 3 / 4, 1 / 2]],
           [[5, 19 / 4, 9 / 2], [3 / 2, 5 / 4, 1], [1, 3 / 4, 1 / 2]]], Some (0, 2, 2))"
  by (simp add: sampleEndStates_def sample_width_def sample_speed_def sample_cell_def fdiv_def
      flat_fields s1_start_def DBL_MAX_def for_loop.simps Let_def FrenetPath_new_def
      power2_eq_square)

lemma frenetOptimalPlanning_flat:
  "frenetOptimalPlanning ext flat_settings [] sp s1_start 0 1 (- 1) 5 [] chk ua
   = Some (Inl OutOfRange)"
  by (simp add: frenetOptimalPlanning_def sampleEndStates_def sample_width_def sample_speed_def
      sample_cell_def fdiv_def flat_fields s1_start_def DBL_MAX_def for_loop.simps Let_def
      FrenetPath_new_def power2_eq_square
      search.simps findNextBest_def findGradients_def gradient_dim_def getTrajAndRealCost_def
      findDirection_def max_gradient_def grid_get_def grid_set_def rdi_def rd_def vec3_def vec3_set_def
      sample_times_small queue_push_def eval_nat_numeral)

text \<open>
  Claim C3. The claim asks that every index the search reaches stays inside the grid and
  that a step is taken only when the selected gradient component is not zero. In the grid of
  two cells on each axis whose cell \<open>(1, 1, 1)\<close> is the cheapest, the three gradients at
  \<open>(1, 1, 1)\<close> are zero, \<open>findNextBest\<close> still steps, to \<open>(2, 1, 1)\<close>, and the next pass of
  the loop reads the grid out of range. The same happens in a whole planning call on the
  straight road with three samples on each axis, once the jerk weight and the lateral weight
  are zero: the search walks from the seed \<open>(0, 2, 2)\<close> along the lateral axis and off the
  grid, for any polynomials, any reference spline and any collision settings.
\<close>

theorem search_steps_off_grid:
  "map_sum id fst (findGradients quin quar flat_settings s1_start corner_state (1, 1, 1))
     = Inr (0, 0, 0)
   \<and> map_sum id (\<lambda>(converged, ps, idx). (converged, idx))
       (findNextBest quin quar flat_settings s1_start (corner_state, (1, 1, 1)))
     = Inr (False, (2, 1, 1))
   \<and> search quin quar flat_settings s1_start (corner_state, (1, 1, 1)) = Some (Inl OutOfRange)
   \<and> frenetOptimalPlanning ext flat_settings [] sp s1_start 0 1 (- 1) 5 [] chk ua
     = Some (Inl OutOfRange)"
  by (intro conjI findGradients_corner findNextBest_corner search_corner frenetOptimalPlanning_flat)

section \<open>Properties of the conversion to the global frame\<close>

lemma convert_points_keeps:
  "convert_points legal sp traj j = Inr traj' \<Longrightarrow>
     traj_yaw traj' = traj_yaw traj \<and> traj_ds traj' = traj_ds traj \<and> traj_c traj' = traj_c traj
     \<and> length (traj_x traj') + length (traj_y traj) = length (traj_y traj') + length (traj_x traj)"
proof (induction legal sp traj j rule: convert_points.induct)
  case (1 legal sp traj j)
  show ?case
  proof (cases "j < length (traj_s traj)")
    case False
    with "1.prems" show ?thesis by (subst (asm) convert_points.simps) simp
  next
    case True
    from "1.prems" True
    have "bindE (rd (traj_s traj) j) (\<lambda>sj.
           bindE (calculatePosition sp sj) (\<lambda>(state_x, state_y).
           bindE (calculateYaw sp sj) (\<lambda>i_yaw.
           bindE (rd (traj_d traj) j) (\<lambda>di.
             let frenet_x = state_x + di * cos (i_yaw + pi / 2);
                 frenet_y = state_y + di * sin (i_yaw + pi / 2)
             in if \<not> legal frenet_x \<or> \<not> legal frenet_y then Inr traj
                else convert_points legal sp
                       (traj\<lparr>traj_x := traj_x traj @ [frenet_x], traj_y := traj_y traj @ [frenet_y]\<rparr>)
                       (Suc j))))) = Inr traj'"
      by (subst (asm) convert_points.simps) simp
    then obtain sj p where "calculatePosition sp sj = Inr p"
      and r1: "(case p of (state_x, state_y) \<Rightarrow>
           bindE (calculateYaw sp sj) (\<lambda>i_yaw.
           bindE (rd (traj_d traj) j) (\<lambda>di.
             let frenet_x = state_x + di * cos (i_yaw + pi / 2);
                 frenet_y = state_y + di * sin (i_yaw + pi / 2)
             in if \<not> legal frenet_x \<or> \<not> legal frenet_y then Inr traj
                else convert_points legal sp
                       (traj\<lparr>traj_x := traj_x traj @ [frenet_x], traj_y := traj_y traj @ [frenet_y]\<rparr>)
                       (Suc j)))) = Inr traj'"
      by (elim bindE_InrE)
    obtain state_x state_y where p: "p = (state_x, state_y)" by (cases p)
    from r1 p obtain i_yaw di where
      r2: "(if \<not> legal (state_x + di * cos (i_yaw + pi / 2)) \<or> \<not> legal (state_y + di * sin (i_yaw + pi / 2))
            then Inr traj
            else convert_points legal sp
                   (traj\<lparr>traj_x := traj_x traj @ [state_x + di * cos (i_yaw + pi / 2)],
                         traj_y := traj_y traj @ [state_y + di * sin (i_yaw + pi / 2)]\<rparr>)
                   (Suc j)) = Inr traj'"
      by (auto elim!: bindE_InrE simp: Let_def)
    show ?thesis
    proof (cases "\<not> legal (state_x + di * cos (i_yaw + pi / 2)) \<or> \<not> legal (state_y + di * sin (i_yaw + pi / 2))")
      case True
      with r2 show ?thesis by simp
    next
      case False
      with r2 have "convert_points legal sp
                   (traj\<lparr>traj_x := traj_x traj @ [state_x + di * cos (i_yaw + pi / 2)],
                         traj_y := traj_y traj @ [state_y + di * sin (i_yaw + pi / 2)]\<rparr>)
                   (Suc j) = Inr traj'" by simp
      from "1.IH"[OF \<open>j < length (traj_s traj)\<close> refl refl False this] show ?thesis by simp
    qed
  qed
qed

text \<open>
  Claim C10. The claim asks that the conversion ends without a read out of range and with
  \<open>yaw\<close> and \<open>ds\<close> as long as \<open>x\<close>, also for a candidate truncated to one sample or to
  none. With no sample the bound \<open>x.size() - 1\<close> of the second loop wraps and the loop reads
  \<open>x[1]\<close>; with one sample the loop is skipped and \<open>yaw.back()\<close> is taken of an empty
  vector. Whenever the first loop leaves fewer than two Cartesian samples, the conversion
  reads out of range.
\<close>

theorem convertToGlobalFrame_truncated:
  assumes "convert_points legal sp traj 0 = Inr traj1" and "length (traj_x traj1) < 2"
    and "traj_yaw traj = []"
  shows "convertToGlobalFrame legal traj sp = Inl OutOfRange"
proof -
  have yaw1: "traj_yaw traj1 = []"
    using convert_points_keeps[OF assms(1)] assms(3) by simp
  consider "length (traj_x traj1) = 0" | "length (traj_x traj1) = 1"
    using assms(2) by linarith
  then show ?thesis
  proof cases
    case 1
    then have "for_loop 0 (size_t_minus_1 (length (traj_x traj1))) convert_yaw_ds traj1 = Inl OutOfRange"
      by (simp add: size_t_minus_1_def for_loop.simps convert_yaw_ds_def rd_def)
    then show ?thesis by (simp add: convertToGlobalFrame_def assms(1))
  next
    case 2
    then have "for_loop 0 (size_t_minus_1 (length (traj_x traj1))) convert_yaw_ds traj1 = Inr traj1"
      by (simp add: size_t_minus_1_def for_loop.simps)
    then show ?thesis by (simp add: convertToGlobalFrame_def assms(1) yaw1 vec_back_def)
  qed
qed

lemma searchIndex_s1_0: "searchIndex s1_sx 0 = 0" "searchIndex s1_sy 0 = 0"
  by (simp_all add: searchIndex_def s1_sx_def s1_sy_def s1_knots_def upt5
      cmp_doubles_greater_or_equal_def)

lemma convert_points_one_tick:
  "convert_points (\<lambda>v. True) s1_spline one_tick 0 = Inr (one_tick\<lparr>traj_x := [0], traj_y := [0]\<rparr>)"
  apply (subst convert_points.simps)
  apply (simp add: one_tick_def FrenetPath_new_def rd_def calculatePosition_def calculateYaw_def
      calculatePoint_def calculateFirstDerivative_def s1_spline_def vec_back_def Let_def
      searchIndex_s1_0 atan2_def)
  apply (simp add: s1_sx_def s1_sy_def s1_knots_def)
  apply (subst convert_points.simps)
  apply simp
  done

theorem convertToGlobalFrame_truncated_witness:
  "convert_points (\<lambda>v. True) s1_spline one_tick 0 = Inr (one_tick\<lparr>traj_x := [0], traj_y := [0]\<rparr>)
   \<and> length (traj_x (one_tick\<lparr>traj_x := [0], traj_y := [0]\<rparr>)) < 2
   \<and> traj_yaw one_tick = []
   \<and> convertToGlobalFrame (\<lambda>v. True) one_tick s1_spline = Inl OutOfRange"
  using convertToGlobalFrame_truncated[OF convert_points_one_tick] convert_points_one_tick
  by (simp add: one_tick_def FrenetPath_new_def)

lemma convertToGlobalFrame_lengths:
  assumes ok: "convertToGlobalFrame legal traj sp = Inr traj'"
    and e: "traj_yaw traj = []" "traj_ds traj = []" "traj_c traj = []"
  shows "2 \<le> length (traj_x traj') \<and> length (traj_yaw traj') = length (traj_x traj')
         \<and> length (traj_ds traj') = length (traj_x traj')
         \<and> Suc (length (traj_c traj')) = length (traj_x traj')"
proof -
  from ok obtain traj1 traj2 yaw_back ds_back where
    c1: "convert_points legal sp traj 0 = Inr traj1"
    and l1: "for_loop 0 (size_t_minus_1 (length (traj_x traj1))) convert_yaw_ds traj1 = Inr traj2"
    and yb: "vec_back (traj_yaw traj2) = Inr yaw_back"
    and db: "vec_back (traj_ds (traj2\<lparr>traj_yaw := traj_yaw traj2 @ [yaw_back]\<rparr>)) = Inr ds_back"
    and l2: "for_loop 0 (size_t_minus_1 (length (traj_yaw traj2 @ [yaw_back]))) convert_curvature
               (traj2\<lparr>traj_yaw := traj_yaw traj2 @ [yaw_back], traj_ds := traj_ds traj2 @ [ds_back]\<rparr>)
             = Inr traj'"
    unfolding convertToGlobalFrame_def Let_def
    by (elim bindE_InrE) simp
  from convert_points_keeps[OF c1] e
  have k1: "traj_yaw traj1 = []" "traj_ds traj1 = []" "traj_c traj1 = []" by simp_all
  have ne: "traj_x traj1 \<noteq> []"
  proof
    assume "traj_x traj1 = []"
    with l1 show False
      by (simp add: size_t_minus_1_def for_loop.simps convert_yaw_ds_def rd_def)
  qed
  let ?n = "length (traj_x traj1)"
  from ne l1 have l1': "for_loop 0 (?n - 1) convert_yaw_ds traj1 = Inr traj2"
    by (simp add: size_t_minus_1_def)
  have i1: "traj_x traj2 = traj_x traj1 \<and> length (traj_yaw traj2) = ?n - 1
            \<and> length (traj_ds traj2) = ?n - 1 \<and> traj_c traj2 = []"
    by (rule for_loop_rule[OF l1', where
          P = "\<lambda>k t. traj_x t = traj_x traj1 \<and> length (traj_yaw t) = k
                     \<and> length (traj_ds t) = k \<and> traj_c t = []"])
       (auto simp: k1 convert_yaw_ds_def Let_def elim!: bindE_InrE)
  from yb have "traj_yaw traj2 \<noteq> []" by (auto simp: vec_back_def split: if_splits)
  with i1 have n2: "2 \<le> ?n" by (cases "?n - 1") auto
  let ?t4 = "traj2\<lparr>traj_yaw := traj_yaw traj2 @ [yaw_back], traj_ds := traj_ds traj2 @ [ds_back]\<rparr>"
  from l2 i1 have l2': "for_loop 0 (?n - 1) convert_curvature ?t4 = Inr traj'"
    by (simp add: size_t_minus_1_def)
  have i2: "traj_x traj' = traj_x traj1 \<and> length (traj_yaw traj') = ?n
            \<and> length (traj_ds traj') = ?n \<and> length (traj_c traj') = ?n - 1"
    by (rule for_loop_rule[OF l2', where
          P = "\<lambda>k t. traj_x t = traj_x traj1 \<and> length (traj_yaw t) = ?n
                     \<and> length (traj_ds t) = ?n \<and> length (traj_c t) = k"])
       (use i1 n2 in \<open>auto simp: convert_curvature_def elim!: bindE_InrE\<close>)
  with n2 show ?thesis by auto
qed

section \<open>Properties of the constraint checker\<close>

lemma isnormal_1 [simp]: "isnormal 1"
  by (simp add: isnormal_def DBL_MAX_def)

lemma constraints_from_iff:
  assumes "length (traj_c traj) \<le> length (traj_x traj)"
    and "length (traj_c traj) \<le> length (traj_y traj)"
    and "length (traj_c traj) \<le> length (traj_s_d traj)"
    and "length (traj_c traj) \<le> length (traj_s_dd traj)"
    and "\<forall>k<length (traj_c traj). isnormal (traj_x traj ! k) \<and> isnormal (traj_y traj ! k)"
  shows "constraints_from settings traj i =
         Inr (\<forall>k. i \<le> k \<and> k < length (traj_c traj) \<longrightarrow>
                traj_s_d traj ! k \<le> max_speed settings
                \<and> max_decel settings \<le> traj_s_dd traj ! k
                \<and> traj_s_dd traj ! k \<le> max_accel settings
                \<and> \<bar>traj_c traj ! k\<bar> \<le> max_curvature settings)"
  using assms
proof (induction settings traj i rule: constraints_from.induct)
  case (1 settings traj i)
  let ?ok = "\<lambda>k. traj_s_d traj ! k \<le> max_speed settings
                \<and> max_decel settings \<le> traj_s_dd traj ! k
                \<and> traj_s_dd traj ! k \<le> max_accel settings
                \<and> \<bar>traj_c traj ! k\<bar> \<le> max_curvature settings"
  show ?case
  proof (cases "i < length (traj_c traj)")
    case False
    then show ?thesis by (subst constraints_from.simps) simp
  next
    case True
    with "1.prems" have n: "isnormal (traj_x traj ! i)" "isnormal (traj_y traj ! i)" by simp_all
    show ?thesis
    proof (cases "?ok i")
      case False
      then have "\<not> (\<forall>k. i \<le> k \<and> k < length (traj_c traj) \<longrightarrow> ?ok k)"
        using True by blast
      moreover have "constraints_from settings traj i = Inr False"
        using False True n "1.prems"(1-4)
        by (subst constraints_from.simps) (auto simp: rd_def)
      ultimately show ?thesis by simp
    next
      case ok: True
      have ih: "constraints_from settings traj (Suc i) =
                Inr (\<forall>k. Suc i \<le> k \<and> k < length (traj_c traj) \<longrightarrow> ?ok k)"
        using "1.IH"[OF True, of "traj_x traj ! i" "traj_y traj ! i" "traj_s_d traj ! i"
                        "traj_s_dd traj ! i" "traj_c traj ! i"] n ok "1.prems"
        by auto
      have "constraints_from settings traj i = constraints_from settings traj (Suc i)"
        using ok True n "1.prems"(1-4)
        by (subst constraints_from.simps) (auto simp: rd_def)
      moreover have "(\<forall>k. i \<le> k \<and> k < length (traj_c traj) \<longrightarrow> ?ok k)
                     \<longleftrightarrow> (\<forall>k. Suc i \<le> k \<and> k < length (traj_c traj) \<longrightarrow> ?ok k)"
        using ok by (metis Suc_leI le_neq_implies_less Suc_leD)
      ultimately show ?thesis using ih by simp
    qed
  qed
qed

lemma checkConstraints_zero_coordinate:
  assumes "traj_c traj \<noteq> []" and "traj_x traj \<noteq> []" and "traj_x traj ! 0 = 0"
  shows "checkConstraints settings traj = Inr (False, traj\<lparr>constraint_passed := False\<rparr>)"
  using assms
  by (simp add: checkConstraints_def constraints_from.simps rd_def isnormal_def)

text \<open>
  Claim C1, as amended. The loop of the checker runs over the indices of the curvature
  array, which is one shorter than the Cartesian arrays. For a trajectory whose arrays are at
  least as long as the curvature array and whose coordinates at the examined indices are
  normal numbers, the checker returns true exactly if at every index below the length of the
  curvature array the speed is at most the limit, the acceleration lies between the two
  limits and the absolute curvature is at most the limit; it records the verdict on the
  trajectory and returns it.
\<close>

theorem checkConstraints_examined_ticks:
  assumes "length (traj_c traj) \<le> length (traj_x traj)"
    and "length (traj_c traj) \<le> length (traj_y traj)"
    and "length (traj_c traj) \<le> length (traj_s_d traj)"
    and "length (traj_c traj) \<le> length (traj_s_dd traj)"
    and "\<forall>k<length (traj_c traj). isnormal (traj_x traj ! k) \<and> isnormal (traj_y traj ! k)"
  shows "\<exists>passed. checkConstraints settings traj = Inr (passed, traj\<lparr>constraint_passed := passed\<rparr>)
           \<and> (passed \<longleftrightarrow>
                (\<forall>k<length (traj_c traj).
                   traj_s_d traj ! k \<le> max_speed settings
                   \<and> max_decel settings \<le> traj_s_dd traj ! k
                   \<and> traj_s_dd traj ! k \<le> max_accel settings
                   \<and> \<bar>traj_c traj ! k\<bar> \<le> max_curvature settings))"
  unfolding checkConstraints_def constraints_from_iff[OF assms] by simp

text \<open>
  The claim as stated, over every tick of the trajectory, fails: the speed at the last tick
  is above the limit and the checker passes the trajectory.
\<close>

theorem checkConstraints_last_tick_counterexample:
  "checkConstraints s1_settings last_tick_too_fast
     = Inr (True, last_tick_too_fast\<lparr>constraint_passed := True\<rparr>)
   \<and> length (traj_s_d last_tick_too_fast) = 2
   \<and> max_speed s1_settings < traj_s_d last_tick_too_fast ! 1"
  by (simp add: checkConstraints_def constraints_from.simps rd_def last_tick_too_fast_def
      FrenetPath_new_def s1_settings_def)

theorem checkConstraints_examined_ticks_witness:
  "length (traj_c last_tick_too_fast) = 1
   \<and> isnormal (traj_x last_tick_too_fast ! 0) \<and> isnormal (traj_y last_tick_too_fast ! 0)
   \<and> traj_s_d last_tick_too_fast ! 0 \<le> max_speed s1_settings
   \<and> checkConstraints s1_settings last_tick_too_fast
       = Inr (True, last_tick_too_fast\<lparr>constraint_passed := True\<rparr>)"
proof -
  have h: "length (traj_c last_tick_too_fast) \<le> length (traj_x last_tick_too_fast)"
     "length (traj_c last_tick_too_fast) \<le> length (traj_y last_tick_too_fast)"
     "length (traj_c last_tick_too_fast) \<le> length (traj_s_d last_tick_too_fast)"
     "length (traj_c last_tick_too_fast) \<le> length (traj_s_dd last_tick_too_fast)"
     "\<forall>k<length (traj_c last_tick_too_fast).
         isnormal (traj_x last_tick_too_fast ! k) \<and> isnormal (traj_y last_tick_too_fast ! k)"
    by (simp_all add: last_tick_too_fast_def FrenetPath_new_def)
  from checkConstraints_examined_ticks[OF h, of s1_settings]
  show ?thesis
    by (auto simp: last_tick_too_fast_def FrenetPath_new_def s1_settings_def)
qed

section \<open>Properties of the validation loop\<close>

lemma queue_top_least:
  assumes "c \<in> set q" shows "final_cost (queue_top q) \<le> final_cost c"
proof -
  from assms have "q \<noteq> []" by auto
  then have "final_cost (queue_top q) = Min (final_cost ` set q)"
    by (simp add: queue_top_def f_arg_min_list_f)
  then show ?thesis using assms by simp
qed

lemma queue_pop_subset: "set (queue_pop q) \<subseteq> set q"
  by (simp add: queue_pop_def set_remove1_subset)

lemma queue_pop_shorter: "q \<noteq> [] \<Longrightarrow> length (queue_pop q) < length q"
  by (simp add: queue_pop_def queue_top_def length_remove1 arg_min_list_in)

lemma validation_unfold:
  assumes "q \<noteq> []"
  shows "(\<exists>r. validation ext settings sp ots obs chk ua q n = ([queue_top q], r))
         \<or> (\<exists>n'. validation ext settings sp ots obs chk ua q n
                    = (queue_top q # fst (validation ext settings sp ots obs chk ua (queue_pop q) n'),
                       snd (validation ext settings sp ots obs chk ua (queue_pop q) n')))"
  using assms
  by (subst validation.simps, subst (2) validation.simps)
     (auto simp: Let_def case_prod_beta split: sum.splits)

lemma validation_popped_subset:
  "set (fst (validation ext settings sp ots obs chk ua q n)) \<subseteq> set q"
proof (induction "length q" arbitrary: q n rule: less_induct)
  case less
  show ?case
  proof (cases "q = []")
    case True
    then show ?thesis by (subst validation.simps) simp
  next
    case False
    then have top: "queue_top q \<in> set q"
      by (simp add: queue_top_def arg_min_list_in)
    from validation_unfold[OF False, of ext settings sp ots obs chk ua n]
    show ?thesis
    proof
      assume "\<exists>r. validation ext settings sp ots obs chk ua q n = ([queue_top q], r)"
      with top show ?thesis by auto
    next
      assume "\<exists>n'. validation ext settings sp ots obs chk ua q n
                    = (queue_top q # fst (validation ext settings sp ots obs chk ua (queue_pop q) n'),
                       snd (validation ext settings sp ots obs chk ua (queue_pop q) n'))"
      then obtain n' where v: "fst (validation ext settings sp ots obs chk ua q n)
          = queue_top q # fst (validation ext settings sp ots obs chk ua (queue_pop q) n')"
        by auto
      from less[OF queue_pop_shorter[OF False], of n'] queue_pop_subset[of q] top v
      show ?thesis by auto
    qed
  qed
qed

lemma validation_sorted:
  "sorted (map final_cost (fst (validation ext settings sp ots obs chk ua q n)))"
proof (induction "length q" arbitrary: q n rule: less_induct)
  case less
  show ?case
  proof (cases "q = []")
    case True
    then show ?thesis by (subst validation.simps) simp
  next
    case False
    from validation_unfold[OF False, of ext settings sp ots obs chk ua n]
    show ?thesis
    proof
      assume "\<exists>r. validation ext settings sp ots obs chk ua q n = ([queue_top q], r)"
      then show ?thesis by auto
    next
      assume "\<exists>n'. validation ext settings sp ots obs chk ua q n
                    = (queue_top q # fst (validation ext settings sp ots obs chk ua (queue_pop q) n'),
                       snd (validation ext settings sp ots obs chk ua (queue_pop q) n'))"
      then obtain n' where v: "fst (validation ext settings sp ots obs chk ua q n)
          = queue_top q # fst (validation ext settings sp ots obs chk ua (queue_pop q) n')"
        by auto
      let ?rest = "fst (validation ext settings sp ots obs chk ua (queue_pop q) n')"
      have "set ?rest \<subseteq> set q"
        using validation_popped_subset[of ext settings sp ots obs chk ua "queue_pop q" n']
          queue_pop_subset[of q] by blast
      then have "\<forall>c\<in>set ?rest. final_cost (queue_top q) \<le> final_cost c"
        using queue_top_least by blast
      with less[OF queue_pop_shorter[OF False], of n'] v
      show ?thesis by simp
    qed
  qed
qed

text \<open>
  Claim C4. Whatever the queue holds when the validation loop starts, the candidates are
  taken from it in nondecreasing order of \<open>final_cost\<close>: the list of the candidates popped
  is sorted, and the first of them has the least \<open>final_cost\<close> of all.
\<close>

theorem validation_order:
  "sorted (map final_cost (fst (validation ext settings sp ots obs chk ua q n)))
   \<and> list_all (\<lambda>c. final_cost (hd (fst (validation ext settings sp ots obs chk ua q n)))
                       \<le> final_cost c)
         (fst (validation ext settings sp ots obs chk ua q n))"
proof -
  let ?popped = "fst (validation ext settings sp ots obs chk ua q n)"
  have s: "sorted (map final_cost ?popped)" by (rule validation_sorted)
  have "list_all (\<lambda>c. final_cost (hd ?popped) \<le> final_cost c) ?popped"
  proof (cases ?popped)
    case Nil
    then show ?thesis by simp
  next
    case (Cons c cs)
    with s show ?thesis by (auto simp: list_all_iff)
  qed
  with s show ?thesis by simp
qed

end
